theory Spec2Isabelle
  imports Complex_Main "HOL-Library.Multiset"
begin

section \<open>The interceptor registry and its two pipelines\<close>

text \<open>
  A shallow embedding of \<^verbatim>\<open>InterceptorManager\<close> (interceptorManager.ts) and of the
  types of types.ts. Type variables: \<open>'m\<close> is the message payload
  (\<^verbatim>\<open>PartListUnion\<close>), \<open>'o\<close> the output event (\<^verbatim>\<open>ServerGeminiStreamEvent\<close>),
  \<open>'x\<close> the values a handler can throw, \<open>'v\<close> the values of a metadata mapping
  (\<^verbatim>\<open>unknown\<close>). Optional fields (\<^verbatim>\<open>f?: T\<close>) are \<open>T option\<close>, with \<open>None\<close> for
  \<^verbatim>\<open>undefined\<close>. A \<^verbatim>\<open>Record<string, unknown>\<close> is a map from strings, and the object
  spread \<^verbatim>\<open>{...a, ...b}\<close> is \<open>a ++ b\<close>.
\<close>

subsection \<open>types.ts\<close>

record 'v InterceptorContext =
  sessionId :: string
  timestamp :: nat
  model :: "string option"
  metadata :: "(string \<rightharpoonup> 'v) option"

record 'm InputData =
  message :: 'm
  isRetry :: "bool option"

record 'o OutputData =
  event :: 'o

record ('m, 'v) InputInterceptorResult =
  message :: "'m option"
  blocked :: "bool option"
  blockReason :: "string option"
  metadata :: "(string \<rightharpoonup> 'v) option"

record ('o, 'v) OutputInterceptorResult =
  event :: "'o option"
  blocked :: "bool option"
  metadata :: "(string \<rightharpoonup> 'v) option"

text \<open>
  A handler is a closure. What it does when invoked is, for the manager, two things: how
  its promise settles (\<open>Inl\<close> a thrown value or a rejection, \<open>Inr None\<close> for
  \<^verbatim>\<open>void\<close>, \<open>Inr (Some r)\<close> for a result object), and the calls it makes on the
  manager while it runs (\<^verbatim>\<open>register\<close>, \<^verbatim>\<open>unregister\<close>, \<^verbatim>\<open>clear\<close>), in order. A
  configuration holds handlers and a handler can register configurations, so the two
  types are defined together; that is why \<^verbatim>\<open>InterceptorConfig\<close> is a datatype with
  selectors and not a record. The field \<^verbatim>\<open>id\<close> is the selector \<open>id'\<close>.

  The context a handler is passed holds, as \<^verbatim>\<open>context.metadata\<close>, the very object
  that is the running metadata of the run (no copy is made), so a handler can assign to
  its keys and delete them. That is the third thing a handler does: the mapping it leaves
  in the metadata object it was passed, which is the mapping it was passed when it does
  not write into it. So a handler answers with a triple: how it settles, the metadata it
  leaves, the calls it makes on the manager.

  A message or an event is a value (with an array of parts, the array the handler is
  passed). What a handler assigns to the other fields of the two objects is not
  modelled; no statement below is about those fields. Values are of the declared types:
  no \<^verbatim>\<open>null\<close> registration, an id and a name that are strings.
\<close>

text \<open>
  A \<^verbatim>\<open>number\<close>, as far as the order of priorities needs it: NaN, the two infinities,
  and the finite values, which are reals here (every finite double is one). \<open>subtract\<close>
  is the operator \<^verbatim>\<open>-\<close>. The difference of two finite doubles is rounded, and can
  overflow to an infinity, but it is never of another sign than the exact difference, and
  it is zero only when the two are equal; the sort reads nothing but the sign.
\<close>

datatype number = NaN | NegativeInfinity | Finite real | Infinity

fun subtract :: "number \<Rightarrow> number \<Rightarrow> number" where
  "subtract NaN y = NaN"
| "subtract x NaN = NaN"
| "subtract Infinity Infinity = NaN"
| "subtract NegativeInfinity NegativeInfinity = NaN"
| "subtract Infinity y = Infinity"
| "subtract x NegativeInfinity = Infinity"
| "subtract NegativeInfinity y = NegativeInfinity"
| "subtract x Infinity = NegativeInfinity"
| "subtract (Finite a) (Finite b) = Finite (a - b)"

datatype ('m, 'o, 'x, 'v) InterceptorConfig = InterceptorConfig
  (id': string)
  (name: string)
  (description: "string option")
  (onInput: "('m InputData \<Rightarrow> 'v InterceptorContext \<Rightarrow>
      ('x + ('m, 'v) InputInterceptorResult option) \<times> (string \<rightharpoonup> 'v)
        \<times> ('m, 'o, 'x, 'v) ManagerCall list) option")
  (onOutput: "('o OutputData \<Rightarrow> 'v InterceptorContext \<Rightarrow>
      ('x + ('o, 'v) OutputInterceptorResult option) \<times> (string \<rightharpoonup> 'v)
        \<times> ('m, 'o, 'x, 'v) ManagerCall list) option")
  (enabled: "bool option")
  (priority: "number option")
and ('m, 'o, 'x, 'v) ManagerCall =
    Register "('m, 'o, 'x, 'v) InterceptorConfig"
  | Unregister string
  | Clear

subsection \<open>The manager's state\<close>

text \<open>
  What the logger has been given: a line at debug severity, or a line at error severity
  with the value that was caught.
\<close>

datatype 'x LogEntry = LogDebug string | LogError string 'x

text \<open>
  \<open>interceptors\<close> is the private \<^verbatim>\<open>Map<string, InterceptorConfig>\<close>, as the list of
  its entries in insertion order (the order in which a JavaScript Map iterates).
  \<open>debugLog\<close> is what \<^verbatim>\<open>debugLogger\<close> has been given. \<open>arrays\<close> is the store of
  the arrays that \<^verbatim>\<open>getAll\<close> has handed to its callers: a caller holds an index into
  it (a reference) and can overwrite the array there.
\<close>

record ('m, 'o, 'x, 'v) ManagerState =
  interceptors :: "(string \<times> ('m, 'o, 'x, 'v) InterceptorConfig) list"
  sessionId :: string
  debugLog :: "'x LogEntry list"
  arrays :: "('m, 'o, 'x, 'v) InterceptorConfig list list"

text \<open>
  Modelled from the spec: \<^verbatim>\<open>debugLogger.debug\<close> of utils/debugLogger.js, which is
  not among the sources. The spec has the logging collaborator as "a sink accepting a
  message string and severity {debug, error}; no return value, must not throw": the line
  is appended to the log and nothing else happens.
\<close>

definition debugLogger_debug ::
  "string \<Rightarrow> ('m, 'o, 'x, 'v) ManagerState \<Rightarrow> ('m, 'o, 'x, 'v) ManagerState" where
  "debugLogger_debug line s = s\<lparr>debugLog := debugLog s @ [LogDebug line]\<rparr>"

text \<open>
  Modelled from the spec: \<^verbatim>\<open>debugLogger.error\<close> of utils/debugLogger.js, the same
  sink at error severity; the second argument is the caught value.
\<close>

definition debugLogger_error ::
  "string \<Rightarrow> 'x \<Rightarrow> ('m, 'o, 'x, 'v) ManagerState \<Rightarrow> ('m, 'o, 'x, 'v) ManagerState" where
  "debugLogger_error line e s = s\<lparr>debugLog := debugLog s @ [LogError line e]\<rparr>"

text \<open>The operations of a JavaScript Map on the list of its entries.\<close>

definition mapHas :: "string \<Rightarrow> (string \<times> 'a) list \<Rightarrow> bool" where
  "mapHas k kvs = (map_of kvs k \<noteq> None)"

definition mapGet :: "string \<Rightarrow> (string \<times> 'a) list \<Rightarrow> 'a option" where
  "mapGet k kvs = map_of kvs k"

text \<open>\<^verbatim>\<open>set\<close> on a key that is present replaces the value where the entry stands; a new
  key goes to the end.\<close>

fun mapSet :: "string \<Rightarrow> 'a \<Rightarrow> (string \<times> 'a) list \<Rightarrow> (string \<times> 'a) list" where
  "mapSet k v [] = [(k, v)]"
| "mapSet k v ((k', v') # kvs) =
     (if k' = k then (k, v) # kvs else (k', v') # mapSet k v kvs)"

definition mapDelete :: "string \<Rightarrow> (string \<times> 'a) list \<Rightarrow> bool \<times> (string \<times> 'a) list" where
  "mapDelete k kvs = (mapHas k kvs, filter (\<lambda>kv. fst kv \<noteq> k) kvs)"

definition mapValues :: "(string \<times> 'a) list \<Rightarrow> 'a list" where
  "mapValues kvs = map snd kvs"

subsection \<open>Registration\<close>

definition new_InterceptorManager :: "string \<Rightarrow> ('m, 'o, 'x, 'v) ManagerState" where
  "new_InterceptorManager sid =
     \<lparr>interceptors = [], ManagerState.sessionId = sid, debugLog = [], arrays = []\<rparr>"

definition register ::
  "('m, 'o, 'x, 'v) InterceptorConfig \<Rightarrow> ('m, 'o, 'x, 'v) ManagerState
     \<Rightarrow> ('m, 'o, 'x, 'v) ManagerState" where
  "register config s =
     (let s1 = (if mapHas (id' config) (interceptors s)
                then debugLogger_debug
                       (''[InterceptorManager] Replacing existing interceptor: '' @ id' config) s
                else s);
          s2 = s1\<lparr>interceptors := mapSet (id' config) config (interceptors s1)\<rparr>
      in debugLogger_debug
           (''[InterceptorManager] Registered interceptor: '' @ id' config
              @ '' ('' @ name config @ '')'') s2)"

definition unregister ::
  "string \<Rightarrow> ('m, 'o, 'x, 'v) ManagerState \<Rightarrow> bool \<times> ('m, 'o, 'x, 'v) ManagerState" where
  "unregister i s =
     (let (result, kvs) = mapDelete i (interceptors s);
          s1 = s\<lparr>interceptors := kvs\<rparr>
      in if result
         then (result, debugLogger_debug (''[InterceptorManager] Unregistered interceptor: '' @ i) s1)
         else (result, s1))"

text \<open>\<^verbatim>\<open>getAll\<close> builds a new array (\<^verbatim>\<open>Array.from\<close>) and returns the reference to it.\<close>

definition getAll ::
  "('m, 'o, 'x, 'v) ManagerState \<Rightarrow> nat \<times> ('m, 'o, 'x, 'v) ManagerState" where
  "getAll s = (length (arrays s), s\<lparr>arrays := arrays s @ [mapValues (interceptors s)]\<rparr>)"

definition get ::
  "string \<Rightarrow> ('m, 'o, 'x, 'v) ManagerState \<Rightarrow> ('m, 'o, 'x, 'v) InterceptorConfig option" where
  "get i s = mapGet i (interceptors s)"

definition clear :: "('m, 'o, 'x, 'v) ManagerState \<Rightarrow> ('m, 'o, 'x, 'v) ManagerState" where
  "clear s =
     debugLogger_debug ''[InterceptorManager] Cleared all interceptors'' (s\<lparr>interceptors := []\<rparr>)"

text \<open>What a caller does with an array it holds: read it, or overwrite it (any sequence of
  pushes, removals and reorderings leaves some list there).\<close>

definition readArray ::
  "nat \<Rightarrow> ('m, 'o, 'x, 'v) ManagerState \<Rightarrow> ('m, 'o, 'x, 'v) InterceptorConfig list option" where
  "readArray r s = (if r < length (arrays s) then Some (arrays s ! r) else None)"

definition writeArray ::
  "nat \<Rightarrow> ('m, 'o, 'x, 'v) InterceptorConfig list \<Rightarrow> ('m, 'o, 'x, 'v) ManagerState
     \<Rightarrow> ('m, 'o, 'x, 'v) ManagerState" where
  "writeArray r xs s = (if r < length (arrays s) then s\<lparr>arrays := (arrays s)[r := xs]\<rparr> else s)"

subsection \<open>Selection and ordering\<close>

text \<open>The operator \<^verbatim>\<open>??\<close>.\<close>

definition nullish :: "'a option \<Rightarrow> 'a \<Rightarrow> 'a" where
  "nullish x d = (case x of None \<Rightarrow> d | Some y \<Rightarrow> y)"

text \<open>The comparator given to \<^verbatim>\<open>sort\<close>:
  \<^verbatim>\<open>(a, b) => (b.priority ?? 0) - (a.priority ?? 0)\<close>.\<close>

definition compareFn ::
  "('m, 'o, 'x, 'v) InterceptorConfig \<Rightarrow> ('m, 'o, 'x, 'v) InterceptorConfig \<Rightarrow> number" where
  "compareFn a b = subtract (nullish (priority b) (Finite 0)) (nullish (priority a) (Finite 0))"

text \<open>
  \<^verbatim>\<open>Array.prototype.sort\<close> with a comparator. The sort reads the comparator through
  \<^verbatim>\<open>SortCompare\<close>, which takes a result that is NaN for +0; \<open>a\<close> comes before \<open>b\<close>
  when the result on \<open>(a, b)\<close> is negative, after it when positive, and the two keep
  their order when it is zero (the sort is stable). Here it is insertion from the right:
  an element stands before all those it came before in the input, unless the comparator
  puts one of them first. When the comparator is not consistent, as with a priority that is
  NaN, the language leaves the order to the implementation; this sort then gives the order
  that the insertion sort of short arrays gives.
\<close>

definition sortCompare :: "('a \<Rightarrow> 'a \<Rightarrow> number) \<Rightarrow> 'a \<Rightarrow> 'a \<Rightarrow> number" where
  "sortCompare cmp x y = (case cmp x y of NaN \<Rightarrow> Finite 0 | v \<Rightarrow> v)"

fun isPositive :: "number \<Rightarrow> bool" where
  "isPositive Infinity = True"
| "isPositive (Finite r) = (0 < r)"
| "isPositive v = False"

fun insertSorted :: "('a \<Rightarrow> 'a \<Rightarrow> number) \<Rightarrow> 'a \<Rightarrow> 'a list \<Rightarrow> 'a list" where
  "insertSorted cmp x [] = [x]"
| "insertSorted cmp x (y # ys) =
     (if \<not> isPositive (sortCompare cmp x y) then x # y # ys else y # insertSorted cmp x ys)"

fun arraySort :: "('a \<Rightarrow> 'a \<Rightarrow> number) \<Rightarrow> 'a list \<Rightarrow> 'a list" where
  "arraySort cmp [] = []"
| "arraySort cmp (x # xs) = insertSorted cmp x (arraySort cmp xs)"

definition getSortedInputInterceptors ::
  "('m, 'o, 'x, 'v) ManagerState \<Rightarrow> ('m, 'o, 'x, 'v) InterceptorConfig list" where
  "getSortedInputInterceptors s =
     arraySort compareFn
       (filter (\<lambda>i. enabled i \<noteq> Some False \<and> onInput i \<noteq> None)
          (mapValues (interceptors s)))"

definition getSortedOutputInterceptors ::
  "('m, 'o, 'x, 'v) ManagerState \<Rightarrow> ('m, 'o, 'x, 'v) InterceptorConfig list" where
  "getSortedOutputInterceptors s =
     arraySort compareFn
       (filter (\<lambda>i. enabled i \<noteq> Some False \<and> onOutput i \<noteq> None)
          (mapValues (interceptors s)))"

subsection \<open>The pipelines\<close>

text \<open>The calls a handler made on the manager while it ran, applied in order.\<close>

fun applyCall ::
  "('m, 'o, 'x, 'v) ManagerCall \<Rightarrow> ('m, 'o, 'x, 'v) ManagerState
     \<Rightarrow> ('m, 'o, 'x, 'v) ManagerState" where
  "applyCall (Register config) s = register config s"
| "applyCall (Unregister i) s = snd (unregister i s)"
| "applyCall Clear s = clear s"

definition applyCalls ::
  "('m, 'o, 'x, 'v) ManagerCall list \<Rightarrow> ('m, 'o, 'x, 'v) ManagerState
     \<Rightarrow> ('m, 'o, 'x, 'v) ManagerState" where
  "applyCalls cs s = foldl (\<lambda>t c. applyCall c t) s cs"

text \<open>
  The value of a pipeline run. \<open>returned\<close> is how the promise of the \<^verbatim>\<open>async\<close>
  function settles: \<open>Inr\<close> the object it returns, \<open>Inl\<close> a rejection. \<open>after\<close> is
  the state the run leaves. \<open>calls\<close> is not a value of the program: it lists the
  handler invocations of the run in order, each with the configuration whose handler was
  invoked and the two arguments as they were at the call, so that statements about which
  handlers run, and what they are given, can be made.
\<close>

record ('c, 'd, 'v) Invocation =
  callee :: 'c
  passedData :: 'd
  passedContext :: "'v InterceptorContext"

record ('r, 'i, 's) Run =
  returned :: 'r
  calls :: "'i list"
  after :: 's

definition invoked :: "'i \<Rightarrow> ('r, 'i, 's) Run \<Rightarrow> ('r, 'i, 's) Run" where
  "invoked c run = run\<lparr>calls := c # calls run\<rparr>"

record 'm InputPipelineResult =
  message :: 'm
  blocked :: bool
  blockReason :: "string option"

record 'o OutputPipelineResult =
  event :: 'o
  blocked :: bool

text \<open>
  The \<^verbatim>\<open>for\<close> loop of \<^verbatim>\<open>executeInputInterceptors\<close>, over what is left of
  \<^verbatim>\<open>enabledInterceptors\<close>, with the locals \<^verbatim>\<open>inputData\<close>, \<^verbatim>\<open>context\<close>,
  \<^verbatim>\<open>currentMessage\<close> and \<^verbatim>\<open>metadata\<close>. The \<open>Inl\<close> branch is the \<^verbatim>\<open>catch\<close> block.
  The local \<^verbatim>\<open>metadata\<close> refers to the object the handler was passed until it is
  assigned the merge, so after the call it stands for \<open>written\<close>, what the handler left
  in that object: also in the \<^verbatim>\<open>catch\<close> block and after a \<^verbatim>\<open>continue\<close>.
  A parameter or local whose name is also the name of a field carries a prime
  (\<open>metadata'\<close>, \<open>message'\<close>, \<open>model'\<close>, \<open>isRetry'\<close>, \<open>event'\<close>).
\<close>

fun inputLoop ::
  "('m, 'o, 'x, 'v) InterceptorConfig list \<Rightarrow> 'm InputData \<Rightarrow> 'v InterceptorContext
     \<Rightarrow> 'm \<Rightarrow> (string \<rightharpoonup> 'v) \<Rightarrow> ('m, 'o, 'x, 'v) ManagerState
     \<Rightarrow> ('x + 'm InputPipelineResult,
         (('m, 'o, 'x, 'v) InterceptorConfig, 'm InputData, 'v) Invocation,
         ('m, 'o, 'x, 'v) ManagerState) Run" where
  "inputLoop [] inputData context currentMessage metadata' s =
     \<lparr>returned = Inr \<lparr>InputPipelineResult.message = currentMessage, blocked = False, blockReason = None\<rparr>,
      calls = [], after = s\<rparr>"
| "inputLoop (interceptor # rest) inputData context currentMessage metadata' s =
     (case onInput interceptor of
        None \<Rightarrow> inputLoop rest inputData context currentMessage metadata' s
      | Some handler \<Rightarrow>
          (let s1 = debugLogger_debug
                      (''[InterceptorManager] Executing input interceptor: '' @ id' interceptor) s;
               context1 = context\<lparr>InterceptorContext.metadata := Some metadata'\<rparr>;
               inputData1 = inputData\<lparr>InputData.message := currentMessage\<rparr>;
               settled = fst (handler inputData1 context1);
               written = fst (snd (handler inputData1 context1));
               s2 = applyCalls (snd (snd (handler inputData1 context1))) s1
           in invoked \<lparr>callee = interceptor, passedData = inputData1, passedContext = context1\<rparr>
               (case settled of
                  Inl error \<Rightarrow>
                    inputLoop rest inputData1 context1 currentMessage written
                      (debugLogger_error
                         (''[InterceptorManager] Error in input interceptor '' @ id' interceptor @ '':'')
                         error s2)
                | Inr None \<Rightarrow> inputLoop rest inputData1 context1 currentMessage written s2
                | Inr (Some result) \<Rightarrow>
                    if InputInterceptorResult.blocked result = Some True
                    then \<lparr>returned = Inr \<lparr>InputPipelineResult.message = currentMessage, blocked = True,
                                          blockReason = InputInterceptorResult.blockReason result\<rparr>,
                          calls = [],
                          after = debugLogger_debug
                                    (''[InterceptorManager] Input blocked by interceptor: ''
                                       @ id' interceptor) s2\<rparr>
                    else
                      (case InputInterceptorResult.message result of
                         Some m \<Rightarrow>
                           inputLoop rest inputData1 context1 m
                             (case InputInterceptorResult.metadata result of
                                Some md \<Rightarrow> written ++ md | None \<Rightarrow> written)
                             (debugLogger_debug
                                (''[InterceptorManager] Input modified by interceptor: ''
                                   @ id' interceptor) s2)
                       | None \<Rightarrow>
                           inputLoop rest inputData1 context1 currentMessage
                             (case InputInterceptorResult.metadata result of
                                Some md \<Rightarrow> written ++ md | None \<Rightarrow> written)
                             s2))))"

definition executeInputInterceptors ::
  "'m \<Rightarrow> string option \<Rightarrow> bool option \<Rightarrow> nat \<Rightarrow> ('m, 'o, 'x, 'v) ManagerState
     \<Rightarrow> ('x + 'm InputPipelineResult,
         (('m, 'o, 'x, 'v) InterceptorConfig, 'm InputData, 'v) Invocation,
         ('m, 'o, 'x, 'v) ManagerState) Run" where
  "executeInputInterceptors message' model' isRetry' now s =
     (let enabledInterceptors = getSortedInputInterceptors s
      in if length enabledInterceptors = 0
         then \<lparr>returned = Inr \<lparr>InputPipelineResult.message = message', blocked = False, blockReason = None\<rparr>,
               calls = [], after = s\<rparr>
         else
           (let currentMessage = message';
                metadata' = Map.empty;
                context = \<lparr>InterceptorContext.sessionId = ManagerState.sessionId s, timestamp = now,
                           model = model', metadata = Some metadata'\<rparr>;
                inputData = \<lparr>InputData.message = currentMessage, isRetry = isRetry'\<rparr>
            in inputLoop enabledInterceptors inputData context currentMessage metadata' s))"

text \<open>The \<^verbatim>\<open>for\<close> loop of \<^verbatim>\<open>executeOutputInterceptors\<close>.\<close>

fun outputLoop ::
  "('m, 'o, 'x, 'v) InterceptorConfig list \<Rightarrow> 'o OutputData \<Rightarrow> 'v InterceptorContext
     \<Rightarrow> 'o \<Rightarrow> (string \<rightharpoonup> 'v) \<Rightarrow> ('m, 'o, 'x, 'v) ManagerState
     \<Rightarrow> ('x + 'o OutputPipelineResult,
         (('m, 'o, 'x, 'v) InterceptorConfig, 'o OutputData, 'v) Invocation,
         ('m, 'o, 'x, 'v) ManagerState) Run" where
  "outputLoop [] outputData context currentEvent metadata' s =
     \<lparr>returned = Inr \<lparr>OutputPipelineResult.event = currentEvent, blocked = False\<rparr>,
      calls = [], after = s\<rparr>"
| "outputLoop (interceptor # rest) outputData context currentEvent metadata' s =
     (case onOutput interceptor of
        None \<Rightarrow> outputLoop rest outputData context currentEvent metadata' s
      | Some handler \<Rightarrow>
          (let s1 = debugLogger_debug
                      (''[InterceptorManager] Executing output interceptor: '' @ id' interceptor) s;
               context1 = context\<lparr>InterceptorContext.metadata := Some metadata'\<rparr>;
               outputData1 = outputData\<lparr>OutputData.event := currentEvent\<rparr>;
               settled = fst (handler outputData1 context1);
               written = fst (snd (handler outputData1 context1));
               s2 = applyCalls (snd (snd (handler outputData1 context1))) s1
           in invoked \<lparr>callee = interceptor, passedData = outputData1, passedContext = context1\<rparr>
               (case settled of
                  Inl error \<Rightarrow>
                    outputLoop rest outputData1 context1 currentEvent written
                      (debugLogger_error
                         (''[InterceptorManager] Error in output interceptor '' @ id' interceptor @ '':'')
                         error s2)
                | Inr None \<Rightarrow> outputLoop rest outputData1 context1 currentEvent written s2
                | Inr (Some result) \<Rightarrow>
                    if OutputInterceptorResult.blocked result = Some True
                    then \<lparr>returned = Inr \<lparr>OutputPipelineResult.event = currentEvent, blocked = True\<rparr>,
                          calls = [],
                          after = debugLogger_debug
                                    (''[InterceptorManager] Output blocked by interceptor: ''
                                       @ id' interceptor) s2\<rparr>
                    else
                      (case OutputInterceptorResult.event result of
                         Some e \<Rightarrow>
                           outputLoop rest outputData1 context1 e
                             (case OutputInterceptorResult.metadata result of
                                Some md \<Rightarrow> written ++ md | None \<Rightarrow> written)
                             (debugLogger_debug
                                (''[InterceptorManager] Output modified by interceptor: ''
                                   @ id' interceptor) s2)
                       | None \<Rightarrow>
                           outputLoop rest outputData1 context1 currentEvent
                             (case OutputInterceptorResult.metadata result of
                                Some md \<Rightarrow> written ++ md | None \<Rightarrow> written)
                             s2))))"

definition executeOutputInterceptors ::
  "'o \<Rightarrow> string option \<Rightarrow> nat \<Rightarrow> ('m, 'o, 'x, 'v) ManagerState
     \<Rightarrow> ('x + 'o OutputPipelineResult,
         (('m, 'o, 'x, 'v) InterceptorConfig, 'o OutputData, 'v) Invocation,
         ('m, 'o, 'x, 'v) ManagerState) Run" where
  "executeOutputInterceptors event' model' now s =
     (let enabledInterceptors = getSortedOutputInterceptors s
      in if length enabledInterceptors = 0
         then \<lparr>returned = Inr \<lparr>OutputPipelineResult.event = event', blocked = False\<rparr>,
               calls = [], after = s\<rparr>
         else
           (let currentEvent = event';
                metadata' = Map.empty;
                context = \<lparr>InterceptorContext.sessionId = ManagerState.sessionId s, timestamp = now,
                           model = model', metadata = Some metadata'\<rparr>;
                outputData = \<lparr>OutputData.event = currentEvent\<rparr>
            in outputLoop enabledInterceptors outputData context currentEvent metadata' s))"

subsection \<open>Reading a run\<close>

text \<open>
  What an invocation listed in \<open>calls\<close> answered: the handler of the callee applied to
  the arguments it was passed. \<open>inputSettled\<close> is how its promise settled,
  \<open>inputWritten\<close> the mapping it left in the metadata object it was passed
  (\<open>contextMetadata\<close> of a context is the mapping in that object),
  \<open>inputEffects\<close> the calls it made on the manager, \<open>inputBlocks\<close> whether it
  returned a result whose \<^verbatim>\<open>blocked\<close> is true, \<open>inputContribution\<close> the metadata of
  its result (nothing when it threw, returned nothing or gave none), and
  \<open>inputReason\<close> the \<^verbatim>\<open>blockReason\<close> of its result. The same for output.
\<close>

definition contextMetadata :: "'v InterceptorContext \<Rightarrow> (string \<rightharpoonup> 'v)" where
  "contextMetadata c =
     (case InterceptorContext.metadata c of None \<Rightarrow> Map.empty | Some md \<Rightarrow> md)"

definition inputSettled ::
  "(('m, 'o, 'x, 'v) InterceptorConfig, 'm InputData, 'v) Invocation
     \<Rightarrow> 'x + ('m, 'v) InputInterceptorResult option" where
  "inputSettled k =
     (case onInput (callee k) of
        None \<Rightarrow> Inr None
      | Some handler \<Rightarrow> fst (handler (passedData k) (passedContext k)))"

definition inputWritten ::
  "(('m, 'o, 'x, 'v) InterceptorConfig, 'm InputData, 'v) Invocation \<Rightarrow> (string \<rightharpoonup> 'v)" where
  "inputWritten k =
     (case onInput (callee k) of
        None \<Rightarrow> contextMetadata (passedContext k)
      | Some handler \<Rightarrow> fst (snd (handler (passedData k) (passedContext k))))"

definition inputEffects ::
  "(('m, 'o, 'x, 'v) InterceptorConfig, 'm InputData, 'v) Invocation
     \<Rightarrow> ('m, 'o, 'x, 'v) ManagerCall list" where
  "inputEffects k =
     (case onInput (callee k) of
        None \<Rightarrow> []
      | Some handler \<Rightarrow> snd (snd (handler (passedData k) (passedContext k))))"

definition inputBlocks ::
  "(('m, 'o, 'x, 'v) InterceptorConfig, 'm InputData, 'v) Invocation \<Rightarrow> bool" where
  "inputBlocks k =
     (case inputSettled k of
        Inr (Some result) \<Rightarrow> InputInterceptorResult.blocked result = Some True
      | _ \<Rightarrow> False)"

definition inputReason ::
  "(('m, 'o, 'x, 'v) InterceptorConfig, 'm InputData, 'v) Invocation \<Rightarrow> string option" where
  "inputReason k =
     (case inputSettled k of
        Inr (Some result) \<Rightarrow> InputInterceptorResult.blockReason result
      | _ \<Rightarrow> None)"

definition inputContribution ::
  "(('m, 'o, 'x, 'v) InterceptorConfig, 'm InputData, 'v) Invocation \<Rightarrow> (string \<rightharpoonup> 'v)" where
  "inputContribution k =
     (case inputSettled k of
        Inr (Some result) \<Rightarrow>
          (case InputInterceptorResult.metadata result of Some md \<Rightarrow> md | None \<Rightarrow> Map.empty)
      | _ \<Rightarrow> Map.empty)"

definition outputSettled ::
  "(('m, 'o, 'x, 'v) InterceptorConfig, 'o OutputData, 'v) Invocation
     \<Rightarrow> 'x + ('o, 'v) OutputInterceptorResult option" where
  "outputSettled k =
     (case onOutput (callee k) of
        None \<Rightarrow> Inr None
      | Some handler \<Rightarrow> fst (handler (passedData k) (passedContext k)))"

definition outputWritten ::
  "(('m, 'o, 'x, 'v) InterceptorConfig, 'o OutputData, 'v) Invocation \<Rightarrow> (string \<rightharpoonup> 'v)" where
  "outputWritten k =
     (case onOutput (callee k) of
        None \<Rightarrow> contextMetadata (passedContext k)
      | Some handler \<Rightarrow> fst (snd (handler (passedData k) (passedContext k))))"

definition outputEffects ::
  "(('m, 'o, 'x, 'v) InterceptorConfig, 'o OutputData, 'v) Invocation
     \<Rightarrow> ('m, 'o, 'x, 'v) ManagerCall list" where
  "outputEffects k =
     (case onOutput (callee k) of
        None \<Rightarrow> []
      | Some handler \<Rightarrow> snd (snd (handler (passedData k) (passedContext k))))"

definition outputBlocks ::
  "(('m, 'o, 'x, 'v) InterceptorConfig, 'o OutputData, 'v) Invocation \<Rightarrow> bool" where
  "outputBlocks k =
     (case outputSettled k of
        Inr (Some result) \<Rightarrow> OutputInterceptorResult.blocked result = Some True
      | _ \<Rightarrow> False)"

definition outputContribution ::
  "(('m, 'o, 'x, 'v) InterceptorConfig, 'o OutputData, 'v) Invocation \<Rightarrow> (string \<rightharpoonup> 'v)" where
  "outputContribution k =
     (case outputSettled k of
        Inr (Some result) \<Rightarrow>
          (case OutputInterceptorResult.metadata result of Some md \<Rightarrow> md | None \<Rightarrow> Map.empty)
      | _ \<Rightarrow> Map.empty)"

text \<open>
  The running value after an invocation that did not block (the result's replacement when
  it gave one, else the value passed), and the state one iteration of the loop leaves:
  the debug line written before the call, the handler's own calls on the manager, then
  the line the branch taken writes.
\<close>

definition inputNextMessage ::
  "(('m, 'o, 'x, 'v) InterceptorConfig, 'm InputData, 'v) Invocation \<Rightarrow> 'm" where
  "inputNextMessage k =
     (case inputSettled k of
        Inr (Some result) \<Rightarrow>
          (case InputInterceptorResult.message result of
             Some m \<Rightarrow> m | None \<Rightarrow> InputData.message (passedData k))
      | _ \<Rightarrow> InputData.message (passedData k))"

definition inputStepState ::
  "(('m, 'o, 'x, 'v) InterceptorConfig, 'm InputData, 'v) Invocation
     \<Rightarrow> ('m, 'o, 'x, 'v) ManagerState \<Rightarrow> ('m, 'o, 'x, 'v) ManagerState" where
  "inputStepState k s =
     (let s2 = applyCalls (inputEffects k)
                 (debugLogger_debug
                    (''[InterceptorManager] Executing input interceptor: '' @ id' (callee k)) s)
      in case inputSettled k of
           Inl error \<Rightarrow>
             debugLogger_error
               (''[InterceptorManager] Error in input interceptor '' @ id' (callee k) @ '':'')
               error s2
         | Inr None \<Rightarrow> s2
         | Inr (Some result) \<Rightarrow>
             if InputInterceptorResult.blocked result = Some True
             then debugLogger_debug
                    (''[InterceptorManager] Input blocked by interceptor: '' @ id' (callee k)) s2
             else (case InputInterceptorResult.message result of
                     Some m \<Rightarrow>
                       debugLogger_debug
                         (''[InterceptorManager] Input modified by interceptor: ''
                            @ id' (callee k)) s2
                   | None \<Rightarrow> s2))"

definition outputNextEvent ::
  "(('m, 'o, 'x, 'v) InterceptorConfig, 'o OutputData, 'v) Invocation \<Rightarrow> 'o" where
  "outputNextEvent k =
     (case outputSettled k of
        Inr (Some result) \<Rightarrow>
          (case OutputInterceptorResult.event result of
             Some e \<Rightarrow> e | None \<Rightarrow> OutputData.event (passedData k))
      | _ \<Rightarrow> OutputData.event (passedData k))"

definition outputStepState ::
  "(('m, 'o, 'x, 'v) InterceptorConfig, 'o OutputData, 'v) Invocation
     \<Rightarrow> ('m, 'o, 'x, 'v) ManagerState \<Rightarrow> ('m, 'o, 'x, 'v) ManagerState" where
  "outputStepState k s =
     (let s2 = applyCalls (outputEffects k)
                 (debugLogger_debug
                    (''[InterceptorManager] Executing output interceptor: '' @ id' (callee k)) s)
      in case outputSettled k of
           Inl error \<Rightarrow>
             debugLogger_error
               (''[InterceptorManager] Error in output interceptor '' @ id' (callee k) @ '':'')
               error s2
         | Inr None \<Rightarrow> s2
         | Inr (Some result) \<Rightarrow>
             if OutputInterceptorResult.blocked result = Some True
             then debugLogger_debug
                    (''[InterceptorManager] Output blocked by interceptor: '' @ id' (callee k)) s2
             else (case OutputInterceptorResult.event result of
                     Some e \<Rightarrow>
                       debugLogger_debug
                         (''[InterceptorManager] Output modified by interceptor: ''
                            @ id' (callee k)) s2
                   | None \<Rightarrow> s2))"


fun lessEq :: "number \<Rightarrow> number \<Rightarrow> bool" where
  "lessEq NaN y = False"
| "lessEq x NaN = False"
| "lessEq NegativeInfinity y = True"
| "lessEq x Infinity = True"
| "lessEq (Finite a) (Finite b) = (a \<le> b)"
| "lessEq x y = False"

subsection \<open>Handlers used as examples\<close>

text \<open>Concrete configurations, with strings for messages, events, thrown values and
  metadata values.\<close>

type_synonym Config = "(string, string, string, string) InterceptorConfig"

text \<open>The examples are given their priority as an integer, or none.\<close>

definition fromInt :: "int option \<Rightarrow> number option" where
  "fromInt p = map_option (\<lambda>n. Finite (of_int n)) p"

text \<open>The manager of the tests, as \<^verbatim>\<open>new InterceptorManager('test-session')\<close> leaves it.\<close>

definition testManager :: "(string, string, string, string) ManagerState" where
  "testManager = new_InterceptorManager ''test-session''"

text \<open>An input handler that returns \<^verbatim>\<open>{message: pre + input.message}\<close>.\<close>

definition prefixer :: "string \<Rightarrow> int option \<Rightarrow> string \<Rightarrow> Config" where
  "prefixer i p pre =
     InterceptorConfig i i None
       (Some (\<lambda>input c.
          (Inr (Some \<lparr>InputInterceptorResult.message = Some (pre @ InputData.message input),
                       blocked = None, blockReason = None, metadata = None\<rparr>), contextMetadata c, [])))
       None None (fromInt p)"

text \<open>An input handler that returns
  \<^verbatim>\<open>{message: "rewritten", blocked: true, blockReason: why}\<close>.\<close>

definition blocker :: "string \<Rightarrow> int option \<Rightarrow> string \<Rightarrow> Config" where
  "blocker i p why =
     InterceptorConfig i i None
       (Some (\<lambda>input c.
          (Inr (Some \<lparr>InputInterceptorResult.message = Some ''rewritten'',
                       blocked = Some True, blockReason = Some why, metadata = None\<rparr>), contextMetadata c, [])))
       None None (fromInt p)"

text \<open>An input handler that throws.\<close>

definition thrower :: "string \<Rightarrow> int option \<Rightarrow> Config" where
  "thrower i p =
     InterceptorConfig i i None (Some (\<lambda>input c. (Inl ''Test error'', contextMetadata c, []))) None None (fromInt p)"

text \<open>An input handler that returns \<^verbatim>\<open>{metadata: {[k]: v}}\<close>.\<close>

definition tagger :: "string \<Rightarrow> int option \<Rightarrow> string \<Rightarrow> string \<Rightarrow> Config" where
  "tagger i p k v =
     InterceptorConfig i i None
       (Some (\<lambda>input c.
          (Inr (Some \<lparr>InputInterceptorResult.message = None, blocked = None,
                       blockReason = None, metadata = Some [k \<mapsto> v]\<rparr>), contextMetadata c, [])))
       None None (fromInt p)"

text \<open>An input handler that returns nothing; an output handler that returns nothing.\<close>

definition spy :: "string \<Rightarrow> int option \<Rightarrow> Config" where
  "spy i p = InterceptorConfig i i None (Some (\<lambda>input c. (Inr None, contextMetadata c, []))) None None (fromInt p)"

definition outputSpy :: "string \<Rightarrow> int option \<Rightarrow> Config" where
  "outputSpy i p = InterceptorConfig i i None None (Some (\<lambda>output c. (Inr None, contextMetadata c, []))) None (fromInt p)"

text \<open>An input handler that, while it runs, clears the registry and registers \<open>c\<close>.\<close>

definition rewirer :: "string \<Rightarrow> int option \<Rightarrow> Config \<Rightarrow> Config" where
  "rewirer i p c =
     InterceptorConfig i i None (Some (\<lambda>input c'. (Inr None, contextMetadata c', [Clear, Register c]))) None None (fromInt p)"

text \<open>The same for output: while it runs, it unregisters \<open>i'\<close> and registers \<open>c\<close>.\<close>

definition outputRewirer :: "string \<Rightarrow> int option \<Rightarrow> string \<Rightarrow> Config \<Rightarrow> Config" where
  "outputRewirer i p i' c =
     InterceptorConfig i i None None
       (Some (\<lambda>output c'. (Inr None, contextMetadata c', [Unregister i', Register c]))) None (fromInt p)"

text \<open>An input handler that is registered with \<^verbatim>\<open>enabled: false\<close>.\<close>

definition disabledSpy :: "string \<Rightarrow> int option \<Rightarrow> Config" where
  "disabledSpy i p =
     InterceptorConfig i i None (Some (\<lambda>input c. (Inr None, contextMetadata c, []))) None (Some False) (fromInt p)"

text \<open>Output handlers: one that returns \<^verbatim>\<open>{event: e}\<close>, one that returns
  \<^verbatim>\<open>{event: "rewritten", blocked: true}\<close>, one that throws, and one that returns
  \<^verbatim>\<open>{metadata: {[k]: v}}\<close>.\<close>

definition outputRewriter :: "string \<Rightarrow> int option \<Rightarrow> string \<Rightarrow> Config" where
  "outputRewriter i p e =
     InterceptorConfig i i None None
       (Some (\<lambda>output c.
          (Inr (Some \<lparr>OutputInterceptorResult.event = Some e, blocked = None,
                       metadata = None\<rparr>), contextMetadata c, [])))
       None (fromInt p)"

definition outputBlocker :: "string \<Rightarrow> int option \<Rightarrow> Config" where
  "outputBlocker i p =
     InterceptorConfig i i None None
       (Some (\<lambda>output c.
          (Inr (Some \<lparr>OutputInterceptorResult.event = Some ''rewritten'', blocked = Some True,
                       metadata = None\<rparr>), contextMetadata c, [])))
       None (fromInt p)"

definition outputThrower :: "string \<Rightarrow> int option \<Rightarrow> Config" where
  "outputThrower i p =
     InterceptorConfig i i None None (Some (\<lambda>output c. (Inl ''Test error'', contextMetadata c, []))) None (fromInt p)"

definition outputTagger :: "string \<Rightarrow> int option \<Rightarrow> string \<Rightarrow> string \<Rightarrow> Config" where
  "outputTagger i p k v =
     InterceptorConfig i i None None
       (Some (\<lambda>output c.
          (Inr (Some \<lparr>OutputInterceptorResult.event = None, blocked = None,
                       metadata = Some [k \<mapsto> v]\<rparr>), contextMetadata c, [])))
       None (fromInt p)"

text \<open>An input handler that does \<^verbatim>\<open>context.metadata[k] = v\<close> and then throws, and one
  that does \<^verbatim>\<open>delete context.metadata[k]\<close> and returns nothing; the same for output.\<close>

definition scribbler :: "string \<Rightarrow> int option \<Rightarrow> string \<Rightarrow> string \<Rightarrow> Config" where
  "scribbler i p k v =
     InterceptorConfig i i None
       (Some (\<lambda>input c. (Inl ''Test error'', (contextMetadata c)(k \<mapsto> v), [])))
       None None (fromInt p)"

definition eraser :: "string \<Rightarrow> int option \<Rightarrow> string \<Rightarrow> Config" where
  "eraser i p k =
     InterceptorConfig i i None
       (Some (\<lambda>input c. (Inr None, (contextMetadata c)(k := None), [])))
       None None (fromInt p)"

definition outputScribbler :: "string \<Rightarrow> int option \<Rightarrow> string \<Rightarrow> string \<Rightarrow> Config" where
  "outputScribbler i p k v =
     InterceptorConfig i i None None
       (Some (\<lambda>output c. (Inl ''Test error'', (contextMetadata c)(k \<mapsto> v), [])))
       None (fromInt p)"

definition outputEraser :: "string \<Rightarrow> int option \<Rightarrow> string \<Rightarrow> Config" where
  "outputEraser i p k =
     InterceptorConfig i i None None
       (Some (\<lambda>output c. (Inr None, (contextMetadata c)(k := None), [])))
       None (fromInt p)"

text \<open>Handlers that return nothing, registered with \<^verbatim>\<open>priority: NaN\<close>.\<close>

definition nanSpy :: "string \<Rightarrow> Config" where
  "nanSpy i =
     InterceptorConfig i i None (Some (\<lambda>input c. (Inr None, contextMetadata c, [])))
       None None (Some NaN)"

definition outputNanSpy :: "string \<Rightarrow> Config" where
  "outputNanSpy i =
     InterceptorConfig i i None None (Some (\<lambda>output c. (Inr None, contextMetadata c, [])))
       None (Some NaN)"

section \<open>The example handlers, field by field\<close>

lemma prefixer_sel:
  "id' (prefixer i p pre) = i" "name (prefixer i p pre) = i" "priority (prefixer i p pre) = fromInt p"
  "enabled (prefixer i p pre) = None" "onOutput (prefixer i p pre) = None"
  "onInput (prefixer i p pre) =
     Some (\<lambda>input c.
       (Inr (Some \<lparr>InputInterceptorResult.message = Some (pre @ InputData.message input),
                    blocked = None, blockReason = None, metadata = None\<rparr>), contextMetadata c, []))"
  by (simp_all add: prefixer_def)

lemma blocker_sel:
  "id' (blocker i p why) = i" "name (blocker i p why) = i" "priority (blocker i p why) = fromInt p"
  "enabled (blocker i p why) = None" "onOutput (blocker i p why) = None"
  "onInput (blocker i p why) =
     Some (\<lambda>input c.
       (Inr (Some \<lparr>InputInterceptorResult.message = Some ''rewritten'',
                    blocked = Some True, blockReason = Some why, metadata = None\<rparr>), contextMetadata c, []))"
  by (simp_all add: blocker_def)

lemma thrower_sel:
  "id' (thrower i p) = i" "name (thrower i p) = i" "priority (thrower i p) = fromInt p"
  "enabled (thrower i p) = None" "onOutput (thrower i p) = None"
  "onInput (thrower i p) = Some (\<lambda>input c. (Inl ''Test error'', contextMetadata c, []))"
  by (simp_all add: thrower_def)

lemma tagger_sel:
  "id' (tagger i p k v) = i" "name (tagger i p k v) = i" "priority (tagger i p k v) = fromInt p"
  "enabled (tagger i p k v) = None" "onOutput (tagger i p k v) = None"
  "onInput (tagger i p k v) =
     Some (\<lambda>input c.
       (Inr (Some \<lparr>InputInterceptorResult.message = None, blocked = None,
                    blockReason = None, metadata = Some [k \<mapsto> v]\<rparr>), contextMetadata c, []))"
  by (simp_all add: tagger_def)

lemma spy_sel:
  "id' (spy i p) = i" "name (spy i p) = i" "priority (spy i p) = fromInt p"
  "enabled (spy i p) = None" "onOutput (spy i p) = None"
  "onInput (spy i p) = Some (\<lambda>input c. (Inr None, contextMetadata c, []))"
  by (simp_all add: spy_def)

lemma outputSpy_sel:
  "id' (outputSpy i p) = i" "name (outputSpy i p) = i" "priority (outputSpy i p) = fromInt p"
  "enabled (outputSpy i p) = None" "onInput (outputSpy i p) = None"
  "onOutput (outputSpy i p) = Some (\<lambda>output c. (Inr None, contextMetadata c, []))"
  by (simp_all add: outputSpy_def)

lemma rewirer_sel:
  "id' (rewirer i p c) = i" "name (rewirer i p c) = i" "priority (rewirer i p c) = fromInt p"
  "enabled (rewirer i p c) = None" "onOutput (rewirer i p c) = None"
  "onInput (rewirer i p c) = Some (\<lambda>input c'. (Inr None, contextMetadata c', [Clear, Register c]))"
  by (simp_all add: rewirer_def)

lemma outputRewirer_sel:
  "id' (outputRewirer i p i' c) = i" "name (outputRewirer i p i' c) = i"
  "priority (outputRewirer i p i' c) = fromInt p" "enabled (outputRewirer i p i' c) = None"
  "onInput (outputRewirer i p i' c) = None"
  "onOutput (outputRewirer i p i' c) = Some (\<lambda>output c'. (Inr None, contextMetadata c', [Unregister i', Register c]))"
  by (simp_all add: outputRewirer_def)

lemma disabledSpy_sel:
  "id' (disabledSpy i p) = i" "name (disabledSpy i p) = i" "priority (disabledSpy i p) = fromInt p"
  "enabled (disabledSpy i p) = Some False" "onOutput (disabledSpy i p) = None"
  "onInput (disabledSpy i p) = Some (\<lambda>input c. (Inr None, contextMetadata c, []))"
  by (simp_all add: disabledSpy_def)

lemma outputRewriter_sel:
  "id' (outputRewriter i p e) = i" "name (outputRewriter i p e) = i"
  "priority (outputRewriter i p e) = fromInt p" "enabled (outputRewriter i p e) = None"
  "onInput (outputRewriter i p e) = None"
  "onOutput (outputRewriter i p e) =
     Some (\<lambda>output c.
       (Inr (Some \<lparr>OutputInterceptorResult.event = Some e, blocked = None,
                    metadata = None\<rparr>), contextMetadata c, []))"
  by (simp_all add: outputRewriter_def)

lemma outputBlocker_sel:
  "id' (outputBlocker i p) = i" "name (outputBlocker i p) = i"
  "priority (outputBlocker i p) = fromInt p" "enabled (outputBlocker i p) = None"
  "onInput (outputBlocker i p) = None"
  "onOutput (outputBlocker i p) =
     Some (\<lambda>output c.
       (Inr (Some \<lparr>OutputInterceptorResult.event = Some ''rewritten'', blocked = Some True,
                    metadata = None\<rparr>), contextMetadata c, []))"
  by (simp_all add: outputBlocker_def)

lemma outputThrower_sel:
  "id' (outputThrower i p) = i" "name (outputThrower i p) = i"
  "priority (outputThrower i p) = fromInt p" "enabled (outputThrower i p) = None"
  "onInput (outputThrower i p) = None"
  "onOutput (outputThrower i p) = Some (\<lambda>output c. (Inl ''Test error'', contextMetadata c, []))"
  by (simp_all add: outputThrower_def)

lemma outputTagger_sel:
  "id' (outputTagger i p k v) = i" "name (outputTagger i p k v) = i"
  "priority (outputTagger i p k v) = fromInt p" "enabled (outputTagger i p k v) = None"
  "onInput (outputTagger i p k v) = None"
  "onOutput (outputTagger i p k v) =
     Some (\<lambda>output c.
       (Inr (Some \<lparr>OutputInterceptorResult.event = None, blocked = None,
                    metadata = Some [k \<mapsto> v]\<rparr>), contextMetadata c, []))"
  by (simp_all add: outputTagger_def)

lemma scribbler_sel:
  "id' (scribbler i p k v) = i" "name (scribbler i p k v) = i"
  "priority (scribbler i p k v) = fromInt p" "enabled (scribbler i p k v) = None"
  "onOutput (scribbler i p k v) = None"
  "onInput (scribbler i p k v) =
     Some (\<lambda>input c. (Inl ''Test error'', (contextMetadata c)(k \<mapsto> v), []))"
  by (simp_all add: scribbler_def)

lemma eraser_sel:
  "id' (eraser i p k) = i" "name (eraser i p k) = i"
  "priority (eraser i p k) = fromInt p" "enabled (eraser i p k) = None"
  "onOutput (eraser i p k) = None"
  "onInput (eraser i p k) = Some (\<lambda>input c. (Inr None, (contextMetadata c)(k := None), []))"
  by (simp_all add: eraser_def)

lemma outputScribbler_sel:
  "id' (outputScribbler i p k v) = i" "name (outputScribbler i p k v) = i"
  "priority (outputScribbler i p k v) = fromInt p" "enabled (outputScribbler i p k v) = None"
  "onInput (outputScribbler i p k v) = None"
  "onOutput (outputScribbler i p k v) =
     Some (\<lambda>output c. (Inl ''Test error'', (contextMetadata c)(k \<mapsto> v), []))"
  by (simp_all add: outputScribbler_def)

lemma outputEraser_sel:
  "id' (outputEraser i p k) = i" "name (outputEraser i p k) = i"
  "priority (outputEraser i p k) = fromInt p" "enabled (outputEraser i p k) = None"
  "onInput (outputEraser i p k) = None"
  "onOutput (outputEraser i p k) = Some (\<lambda>output c. (Inr None, (contextMetadata c)(k := None), []))"
  by (simp_all add: outputEraser_def)

lemma nanSpy_sel:
  "id' (nanSpy i) = i" "name (nanSpy i) = i" "priority (nanSpy i) = Some NaN"
  "enabled (nanSpy i) = None" "onOutput (nanSpy i) = None"
  "onInput (nanSpy i) = Some (\<lambda>input c. (Inr None, contextMetadata c, []))"
  by (simp_all add: nanSpy_def)

lemma outputNanSpy_sel:
  "id' (outputNanSpy i) = i" "name (outputNanSpy i) = i" "priority (outputNanSpy i) = Some NaN"
  "enabled (outputNanSpy i) = None" "onInput (outputNanSpy i) = None"
  "onOutput (outputNanSpy i) = Some (\<lambda>output c. (Inr None, contextMetadata c, []))"
  by (simp_all add: outputNanSpy_def)

section \<open>Ordering: the sort is stable, and descending where no priority is NaN\<close>


lemma lessEq_refl: "x \<noteq> NaN \<Longrightarrow> lessEq x x"
  by (cases x) simp_all




lemma lessEq_not_NaN: "lessEq x y \<Longrightarrow> x \<noteq> NaN \<and> y \<noteq> NaN"
  by (cases x; cases y) simp_all





lemma set_insertSorted: "set (insertSorted cmp x ys) = insert x (set ys)"
  by (induction ys) auto

lemma set_arraySort: "set (arraySort cmp xs) = set xs"
  by (induction xs) (auto simp: set_insertSorted)

lemma length_insertSorted: "length (insertSorted cmp x ys) = Suc (length ys)"
  by (induction ys) auto

lemma length_arraySort: "length (arraySort cmp xs) = length xs"
  by (induction xs) (auto simp: length_insertSorted)

lemma mset_insertSorted: "mset (insertSorted cmp x ys) = add_mset x (mset ys)"
  by (induction ys) auto

lemma mset_arraySort: "mset (arraySort cmp xs) = mset xs"
  by (induction xs) (auto simp: mset_insertSorted)





lemma arraySort_Nil_iff: "(arraySort cmp xs = []) = (xs = [])"
  using length_arraySort [of cmp xs] by (metis length_0_conv)

section \<open>The loops, one iteration at a time\<close>

lemma calls_invoked: "calls (invoked k run) = k # calls run"
  and returned_invoked: "returned (invoked k run) = returned run"
  and after_invoked: "after (invoked k run) = after run"
  by (simp_all add: invoked_def)

lemmas invoked_simps = calls_invoked returned_invoked after_invoked

subsection \<open>Input\<close>

lemmas inputReading = inputBlocks_def inputSettled_def inputReason_def inputNextMessage_def
  inputWritten_def
  inputContribution_def inputStepState_def inputEffects_def invoked_def

lemma inputLoop_skip:
  "onInput c = None \<Longrightarrow> inputLoop (c # rest) d ctx m md s = inputLoop rest d ctx m md s"
  by simp

lemma inputLoop_step:
  assumes "onInput c \<noteq> None"
  shows "inputLoop (c # rest) d ctx m md s =
     (let k = \<lparr>callee = c, passedData = d\<lparr>InputData.message := m\<rparr>,
                passedContext = ctx\<lparr>InterceptorContext.metadata := Some md\<rparr>\<rparr>
      in if inputBlocks k
         then \<lparr>returned = Inr \<lparr>InputPipelineResult.message = m, blocked = True,
                               blockReason = inputReason k\<rparr>,
               calls = [k], after = inputStepState k s\<rparr>
         else invoked k
                (inputLoop rest (passedData k) (passedContext k) (inputNextMessage k)
                   (inputWritten k ++ inputContribution k) (inputStepState k s)))"
proof -
  obtain h where h: "onInput c = Some h"
    using assms by auto
  show ?thesis
  proof (cases "fst (h (d\<lparr>InputData.message := m\<rparr>) (ctx\<lparr>InterceptorContext.metadata := Some md\<rparr>))")
    case (Inl e)
    with h show ?thesis
      by (simp add: Let_def inputReading)
  next
    case (Inr ro)
    show ?thesis
    proof (cases ro)
      case None
      with h Inr show ?thesis
        by (simp add: Let_def inputReading)
    next
      case (Some r)
      with h Inr show ?thesis
        by (cases "InputInterceptorResult.message r"; cases "InputInterceptorResult.metadata r")
           (simp_all add: Let_def inputReading)
    qed
  qed
qed


lemma inputLoop_callees:
  "\<forall>c\<in>set cs. onInput c \<noteq> None \<Longrightarrow>
   map callee (calls (inputLoop cs d ctx m md s)) = take (length (calls (inputLoop cs d ctx m md s))) cs"
proof (induction cs arbitrary: d ctx m md s)
  case Nil
  show ?case by simp
next
  case (Cons c cs)
  then have "onInput c \<noteq> None" by simp
  from inputLoop_step [OF this] show ?case
    using Cons by (simp del: inputLoop.simps add: Let_def invoked_simps)
qed

lemma inputLoop_blocked:
  "i < length (calls (inputLoop cs d ctx m md s)) \<Longrightarrow>
   inputBlocks (calls (inputLoop cs d ctx m md s) ! i) \<Longrightarrow>
   Suc i = length (calls (inputLoop cs d ctx m md s)) \<and>
   returned (inputLoop cs d ctx m md s) =
     Inr \<lparr>InputPipelineResult.message =
            InputData.message (passedData (calls (inputLoop cs d ctx m md s) ! i)),
          blocked = True,
          blockReason = inputReason (calls (inputLoop cs d ctx m md s) ! i)\<rparr>"
proof (induction cs arbitrary: d ctx m md s i)
  case Nil
  then show ?case by simp
next
  case (Cons c cs)
  show ?case
  proof (cases "onInput c")
    case None
    then show ?thesis using Cons by (simp del: inputLoop.simps add: inputLoop_skip)
  next
    case (Some h)
    then have "onInput c \<noteq> None" by simp
    note step = inputLoop_step [OF this, of cs d ctx m md s]
    show ?thesis
    proof (cases i)
      case 0
      with Cons.prems step show ?thesis
        by (simp del: inputLoop.simps add: Let_def invoked_simps split: if_splits)
    next
      case (Suc j)
      with Cons.prems step Cons.IH show ?thesis
        by (simp del: inputLoop.simps add: Let_def invoked_simps split: if_splits)
    qed
  qed
qed

lemma inputLoop_cut:
  "\<forall>c\<in>set cs. onInput c \<noteq> None \<Longrightarrow>
   length (calls (inputLoop cs d ctx m md s)) < length cs \<Longrightarrow>
   calls (inputLoop cs d ctx m md s) \<noteq> [] \<and> inputBlocks (last (calls (inputLoop cs d ctx m md s)))"
proof (induction cs arbitrary: d ctx m md s)
  case Nil
  then show ?case by simp
next
  case (Cons c cs)
  then have "onInput c \<noteq> None" by simp
  note step = inputLoop_step [OF this, of cs d ctx m md s]
  from Cons.prems step Cons.IH show ?case
    by (simp del: inputLoop.simps add: Let_def invoked_simps split: if_splits)
qed

lemma inputLoop_context:
  "i < length (calls (inputLoop cs d ctx m md s)) \<Longrightarrow>
   passedContext (calls (inputLoop cs d ctx m md s) ! i) =
     ctx\<lparr>InterceptorContext.metadata :=
           Some (case i of 0 \<Rightarrow> md
                 | Suc j \<Rightarrow> inputWritten (calls (inputLoop cs d ctx m md s) ! j)
                            ++ inputContribution (calls (inputLoop cs d ctx m md s) ! j))\<rparr>"
proof (induction cs arbitrary: d ctx m md s i)
  case Nil
  then show ?case by simp
next
  case (Cons c cs)
  show ?case
  proof (cases "onInput c")
    case None
    from Cons.prems show ?thesis
      unfolding inputLoop_skip [OF None] by (rule Cons.IH)
  next
    case (Some h)
    then have "onInput c \<noteq> None" by simp
    note step = inputLoop_step [OF this, of cs d ctx m md s]
    show ?thesis
    proof (cases i)
      case 0
      with Cons.prems step show ?thesis
        by (simp del: inputLoop.simps add: Let_def invoked_simps split: if_splits)
    next
      case (Suc j)
      with Cons.prems step Cons.IH [of j] show ?thesis
        by (cases j) (simp_all del: inputLoop.simps add: Let_def invoked_simps split: if_splits)
    qed
  qed
qed


lemma inputLoop_completes:
  "calls (inputLoop cs d ctx m md s) = [] \<or> \<not> inputBlocks (last (calls (inputLoop cs d ctx m md s))) \<Longrightarrow>
   returned (inputLoop cs d ctx m md s) =
     Inr \<lparr>InputPipelineResult.message =
            (if calls (inputLoop cs d ctx m md s) = [] then m
             else inputNextMessage (last (calls (inputLoop cs d ctx m md s)))),
          blocked = False, blockReason = None\<rparr>"
proof (induction cs arbitrary: d ctx m md s)
  case Nil
  then show ?case by simp
next
  case (Cons c cs)
  show ?case
  proof (cases "onInput c")
    case None
    then show ?thesis using Cons by (simp del: inputLoop.simps add: inputLoop_skip)
  next
    case (Some h)
    then have "onInput c \<noteq> None" by simp
    note step = inputLoop_step [OF this, of cs d ctx m md s]
    from Cons.prems step Cons.IH show ?thesis
      by (simp del: inputLoop.simps add: Let_def invoked_simps split: if_splits)
  qed
qed

lemma inputLoop_after:
  "after (inputLoop cs d ctx m md s) =
     foldl (\<lambda>t k. inputStepState k t) s (calls (inputLoop cs d ctx m md s))"
proof (induction cs arbitrary: d ctx m md s)
  case Nil
  then show ?case by simp
next
  case (Cons c cs)
  show ?case
  proof (cases "onInput c")
    case None
    then show ?thesis using Cons by (simp del: inputLoop.simps add: inputLoop_skip)
  next
    case (Some h)
    then have "onInput c \<noteq> None" by simp
    note step = inputLoop_step [OF this, of cs d ctx m md s]
    from step Cons.IH show ?thesis
      by (simp del: inputLoop.simps add: Let_def invoked_simps split: if_splits)
  qed
qed

subsection \<open>Output\<close>

lemmas outputReading = outputBlocks_def outputSettled_def outputNextEvent_def
  outputWritten_def
  outputContribution_def outputStepState_def outputEffects_def invoked_def

lemma outputLoop_skip:
  "onOutput c = None \<Longrightarrow> outputLoop (c # rest) d ctx m md s = outputLoop rest d ctx m md s"
  by simp

lemma outputLoop_step:
  assumes "onOutput c \<noteq> None"
  shows "outputLoop (c # rest) d ctx m md s =
     (let k = \<lparr>callee = c, passedData = d\<lparr>OutputData.event := m\<rparr>,
                passedContext = ctx\<lparr>InterceptorContext.metadata := Some md\<rparr>\<rparr>
      in if outputBlocks k
         then \<lparr>returned = Inr \<lparr>OutputPipelineResult.event = m, blocked = True\<rparr>,
               calls = [k], after = outputStepState k s\<rparr>
         else invoked k
                (outputLoop rest (passedData k) (passedContext k) (outputNextEvent k)
                   (outputWritten k ++ outputContribution k) (outputStepState k s)))"
proof -
  obtain h where h: "onOutput c = Some h"
    using assms by auto
  show ?thesis
  proof (cases "fst (h (d\<lparr>OutputData.event := m\<rparr>) (ctx\<lparr>InterceptorContext.metadata := Some md\<rparr>))")
    case (Inl e)
    with h show ?thesis
      by (simp add: Let_def outputReading)
  next
    case (Inr ro)
    show ?thesis
    proof (cases ro)
      case None
      with h Inr show ?thesis
        by (simp add: Let_def outputReading)
    next
      case (Some r)
      with h Inr show ?thesis
        by (cases "OutputInterceptorResult.event r"; cases "OutputInterceptorResult.metadata r")
           (simp_all add: Let_def outputReading)
    qed
  qed
qed


lemma outputLoop_callees:
  "\<forall>c\<in>set cs. onOutput c \<noteq> None \<Longrightarrow>
   map callee (calls (outputLoop cs d ctx m md s)) = take (length (calls (outputLoop cs d ctx m md s))) cs"
proof (induction cs arbitrary: d ctx m md s)
  case Nil
  show ?case by simp
next
  case (Cons c cs)
  then have "onOutput c \<noteq> None" by simp
  from outputLoop_step [OF this] show ?case
    using Cons by (simp del: outputLoop.simps add: Let_def invoked_simps)
qed

lemma outputLoop_blocked:
  "i < length (calls (outputLoop cs d ctx m md s)) \<Longrightarrow>
   outputBlocks (calls (outputLoop cs d ctx m md s) ! i) \<Longrightarrow>
   Suc i = length (calls (outputLoop cs d ctx m md s)) \<and>
   returned (outputLoop cs d ctx m md s) =
     Inr \<lparr>OutputPipelineResult.event =
            OutputData.event (passedData (calls (outputLoop cs d ctx m md s) ! i)),
          blocked = True\<rparr>"
proof (induction cs arbitrary: d ctx m md s i)
  case Nil
  then show ?case by simp
next
  case (Cons c cs)
  show ?case
  proof (cases "onOutput c")
    case None
    then show ?thesis using Cons by (simp del: outputLoop.simps add: outputLoop_skip)
  next
    case (Some h)
    then have "onOutput c \<noteq> None" by simp
    note step = outputLoop_step [OF this, of cs d ctx m md s]
    show ?thesis
    proof (cases i)
      case 0
      with Cons.prems step show ?thesis
        by (simp del: outputLoop.simps add: Let_def invoked_simps split: if_splits)
    next
      case (Suc j)
      with Cons.prems step Cons.IH show ?thesis
        by (simp del: outputLoop.simps add: Let_def invoked_simps split: if_splits)
    qed
  qed
qed

lemma outputLoop_cut:
  "\<forall>c\<in>set cs. onOutput c \<noteq> None \<Longrightarrow>
   length (calls (outputLoop cs d ctx m md s)) < length cs \<Longrightarrow>
   calls (outputLoop cs d ctx m md s) \<noteq> [] \<and> outputBlocks (last (calls (outputLoop cs d ctx m md s)))"
proof (induction cs arbitrary: d ctx m md s)
  case Nil
  then show ?case by simp
next
  case (Cons c cs)
  then have "onOutput c \<noteq> None" by simp
  note step = outputLoop_step [OF this, of cs d ctx m md s]
  from Cons.prems step Cons.IH show ?case
    by (simp del: outputLoop.simps add: Let_def invoked_simps split: if_splits)
qed

lemma outputLoop_context:
  "i < length (calls (outputLoop cs d ctx m md s)) \<Longrightarrow>
   passedContext (calls (outputLoop cs d ctx m md s) ! i) =
     ctx\<lparr>InterceptorContext.metadata :=
           Some (case i of 0 \<Rightarrow> md
                 | Suc j \<Rightarrow> outputWritten (calls (outputLoop cs d ctx m md s) ! j)
                            ++ outputContribution (calls (outputLoop cs d ctx m md s) ! j))\<rparr>"
proof (induction cs arbitrary: d ctx m md s i)
  case Nil
  then show ?case by simp
next
  case (Cons c cs)
  show ?case
  proof (cases "onOutput c")
    case None
    from Cons.prems show ?thesis
      unfolding outputLoop_skip [OF None] by (rule Cons.IH)
  next
    case (Some h)
    then have "onOutput c \<noteq> None" by simp
    note step = outputLoop_step [OF this, of cs d ctx m md s]
    show ?thesis
    proof (cases i)
      case 0
      with Cons.prems step show ?thesis
        by (simp del: outputLoop.simps add: Let_def invoked_simps split: if_splits)
    next
      case (Suc j)
      with Cons.prems step Cons.IH [of j] show ?thesis
        by (cases j) (simp_all del: outputLoop.simps add: Let_def invoked_simps split: if_splits)
    qed
  qed
qed


lemma outputLoop_completes:
  "calls (outputLoop cs d ctx m md s) = [] \<or> \<not> outputBlocks (last (calls (outputLoop cs d ctx m md s))) \<Longrightarrow>
   returned (outputLoop cs d ctx m md s) =
     Inr \<lparr>OutputPipelineResult.event =
            (if calls (outputLoop cs d ctx m md s) = [] then m
             else outputNextEvent (last (calls (outputLoop cs d ctx m md s)))),
          blocked = False\<rparr>"
proof (induction cs arbitrary: d ctx m md s)
  case Nil
  then show ?case by simp
next
  case (Cons c cs)
  show ?case
  proof (cases "onOutput c")
    case None
    then show ?thesis using Cons by (simp del: outputLoop.simps add: outputLoop_skip)
  next
    case (Some h)
    then have "onOutput c \<noteq> None" by simp
    note step = outputLoop_step [OF this, of cs d ctx m md s]
    from Cons.prems step Cons.IH show ?thesis
      by (simp del: outputLoop.simps add: Let_def invoked_simps split: if_splits)
  qed
qed

lemma outputLoop_after:
  "after (outputLoop cs d ctx m md s) =
     foldl (\<lambda>t k. outputStepState k t) s (calls (outputLoop cs d ctx m md s))"
proof (induction cs arbitrary: d ctx m md s)
  case Nil
  then show ?case by simp
next
  case (Cons c cs)
  show ?case
  proof (cases "onOutput c")
    case None
    then show ?thesis using Cons by (simp del: outputLoop.simps add: outputLoop_skip)
  next
    case (Some h)
    then have "onOutput c \<noteq> None" by simp
    note step = outputLoop_step [OF this, of cs d ctx m md s]
    from step Cons.IH show ?thesis
      by (simp del: outputLoop.simps add: Let_def invoked_simps split: if_splits)
  qed
qed

section \<open>Registration: last write wins\<close>

lemma map_of_mapSet: "map_of (mapSet k v kvs) k = Some v"
  by (induction kvs) auto

lemma map_of_mapSet_other: "k' \<noteq> k \<Longrightarrow> map_of (mapSet k v kvs) k' = map_of kvs k'"
  by (induction kvs) auto

lemma interceptors_register:
  "interceptors (register config s) = mapSet (id' config) config (interceptors s)"
  by (simp add: register_def debugLogger_debug_def Let_def)

lemma debugLog_register:
  "debugLog (register config s) =
     debugLog s
     @ (if mapHas (id' config) (interceptors s)
        then [LogDebug (''[InterceptorManager] Replacing existing interceptor: '' @ id' config)]
        else [])
     @ [LogDebug (''[InterceptorManager] Registered interceptor: '' @ id' config
                    @ '' ('' @ name config @ '')'')]"
  by (simp add: register_def debugLogger_debug_def Let_def)

text \<open>
  C7. After \<open>register r\<close>, \<open>get (id' r)\<close> returns \<open>r\<close>, whatever the registry held
  under that id before; a second registration under the same id wins over the first; the
  entries under other ids are as they were; and all that \<open>register\<close> does besides
  storing the entry is to write debug lines (one more when the id was present).
  \<open>register\<close> has no statement that raises: it is a total function.
\<close>

theorem register_then_get:
  "get (id' r) (register r s) = Some r
   \<and> (id' r' = id' r \<longrightarrow> get (id' r) (register r' (register r s)) = Some r')
   \<and> (k \<noteq> id' r \<longrightarrow> get k (register r s) = get k s)
   \<and> debugLog (register r s) =
       debugLog s
       @ (if get (id' r) s \<noteq> None
          then [LogDebug (''[InterceptorManager] Replacing existing interceptor: '' @ id' r)]
          else [])
       @ [LogDebug (''[InterceptorManager] Registered interceptor: '' @ id' r
                      @ '' ('' @ name r @ '')'')]
   \<and> ManagerState.sessionId (register r s) = ManagerState.sessionId s
   \<and> arrays (register r s) = arrays s"
proof -
  have g: "get (id' c) (register c t) = Some c" for c :: "('m, 'o, 'x, 'v) InterceptorConfig" and t
    by (simp add: get_def mapGet_def interceptors_register map_of_mapSet)
  have "id' r' = id' r \<longrightarrow> get (id' r) (register r' (register r s)) = Some r'"
    using g [of r' "register r s"] by auto
  moreover have "k \<noteq> id' r \<longrightarrow> get k (register r s) = get k s"
    by (simp add: get_def mapGet_def interceptors_register map_of_mapSet_other)
  moreover have "ManagerState.sessionId (register r s) = ManagerState.sessionId s"
    and "arrays (register r s) = arrays s"
    by (simp_all add: register_def debugLogger_debug_def Let_def)
  ultimately show ?thesis
    using g [of r s] by (simp add: debugLog_register get_def mapGet_def mapHas_def)
qed

theorem register_then_get_witness:
  "get ''a'' (register (spy ''a'' None) testManager) = Some (spy ''a'' None)
   \<and> get ''a'' (register (thrower ''a'' None)
                  (register (spy ''a'' None) testManager))
       = Some (thrower ''a'' None)
   \<and> debugLog (register (thrower ''a'' None)
                  (register (spy ''a'' None) testManager))
       = [LogDebug ''[InterceptorManager] Registered interceptor: a (a)'',
          LogDebug ''[InterceptorManager] Replacing existing interceptor: a'',
          LogDebug ''[InterceptorManager] Registered interceptor: a (a)'']
   \<and> get ''b'' (register (spy ''a'' None) testManager) = None"
proof -
  let ?s = testManager
  note a = register_then_get [of "spy ''a'' None" ?s "thrower ''a'' None" "''b''"]
  note b = register_then_get [of "thrower ''a'' None" "register (spy ''a'' None) ?s"
      "spy ''a'' None" "''b''"]
  have g0: "get ''a'' ?s = None" "get ''b'' ?s = None" "debugLog ?s = []"
    by (simp_all add: get_def mapGet_def new_InterceptorManager_def testManager_def)
  show ?thesis using a b g0 by (simp add: spy_sel thrower_sel)
qed

section \<open>The entry points\<close>

lemmas example_sel = prefixer_sel blocker_sel thrower_sel tagger_sel spy_sel outputSpy_sel
  rewirer_sel disabledSpy_sel outputRewriter_sel outputBlocker_sel outputThrower_sel outputTagger_sel
  outputRewirer_sel scribbler_sel eraser_sel outputScribbler_sel outputEraser_sel nanSpy_sel
  outputNanSpy_sel

lemmas registry_eval = getSortedInputInterceptors_def getSortedOutputInterceptors_def
  interceptors_register new_InterceptorManager_def testManager_def mapValues_def compareFn_def
  nullish_def sortCompare_def fromInt_def

text \<open>An entry point is its loop over the selection, started on the message it was given
  and on empty metadata: on an empty selection the loop returns at once what the early
  \<^verbatim>\<open>return\<close> returns.\<close>

lemma executeInput_loop:
  "executeInputInterceptors m mo re now s =
     inputLoop (getSortedInputInterceptors s) \<lparr>InputData.message = m, isRetry = re\<rparr>
       \<lparr>InterceptorContext.sessionId = ManagerState.sessionId s, timestamp = now, model = mo,
        metadata = Some Map.empty\<rparr> m Map.empty s"
  by (cases "getSortedInputInterceptors s")
     (simp_all add: executeInputInterceptors_def Let_def del: inputLoop.simps(2))

lemma executeOutput_loop:
  "executeOutputInterceptors e mo now s =
     outputLoop (getSortedOutputInterceptors s) \<lparr>OutputData.event = e\<rparr>
       \<lparr>InterceptorContext.sessionId = ManagerState.sessionId s, timestamp = now, model = mo,
        metadata = Some Map.empty\<rparr> e Map.empty s"
  by (cases "getSortedOutputInterceptors s")
     (simp_all add: executeOutputInterceptors_def Let_def del: outputLoop.simps(2))

lemma selected_input:
  "set (getSortedInputInterceptors s) =
     {c \<in> set (mapValues (interceptors s)). enabled c \<noteq> Some False \<and> onInput c \<noteq> None}"
  by (auto simp: getSortedInputInterceptors_def set_arraySort)

lemma selected_output:
  "set (getSortedOutputInterceptors s) =
     {c \<in> set (mapValues (interceptors s)). enabled c \<noteq> Some False \<and> onOutput c \<noteq> None}"
  by (auto simp: getSortedOutputInterceptors_def set_arraySort)

lemma input_handlers_present: "\<forall>c\<in>set (getSortedInputInterceptors s). onInput c \<noteq> None"
  by (simp add: selected_input)

lemma output_handlers_present: "\<forall>c\<in>set (getSortedOutputInterceptors s). onOutput c \<noteq> None"
  by (simp add: selected_output)

lemma no_input_selected:
  "(getSortedInputInterceptors s = []) =
     (\<forall>c\<in>set (mapValues (interceptors s)). enabled c = Some False \<or> onInput c = None)"
  using selected_input [of s] by (auto simp flip: set_empty)

lemma no_output_selected:
  "(getSortedOutputInterceptors s = []) =
     (\<forall>c\<in>set (mapValues (interceptors s)). enabled c = Some False \<or> onOutput c = None)"
  using selected_output [of s] by (auto simp flip: set_empty)

lemma executeInput_callees:
  "map callee (calls (executeInputInterceptors m mo re now s)) =
     take (length (calls (executeInputInterceptors m mo re now s))) (getSortedInputInterceptors s)"
  unfolding executeInput_loop by (rule inputLoop_callees [OF input_handlers_present])

lemma executeOutput_callees:
  "map callee (calls (executeOutputInterceptors e mo now s)) =
     take (length (calls (executeOutputInterceptors e mo now s))) (getSortedOutputInterceptors s)"
  unfolding executeOutput_loop by (rule outputLoop_callees [OF output_handlers_present])

section \<open>An empty selection\<close>

text \<open>
  C6. The selection of a direction is empty exactly when every registration is disabled
  (\<^verbatim>\<open>enabled: false\<close>) or has no handler for that direction; an empty registry is the
  case of no registration at all. On an empty selection the pipeline returns the message
  (the event) it was given with \<^verbatim>\<open>blocked: false\<close>, invokes no handler (\<open>calls\<close> is
  empty) and leaves the state as it was, the log included. The value does not depend on
  the clock or on the model: no context is built.
\<close>

theorem nothing_selected_nothing_done:
  "(getSortedInputInterceptors s = []) =
     (\<forall>c\<in>set (mapValues (interceptors s)). enabled c = Some False \<or> onInput c = None)
   \<and> (getSortedOutputInterceptors s = []) =
     (\<forall>c\<in>set (mapValues (interceptors s)). enabled c = Some False \<or> onOutput c = None)
   \<and> (getSortedInputInterceptors s = [] \<longrightarrow>
        executeInputInterceptors m mo re now s =
          \<lparr>returned = Inr \<lparr>InputPipelineResult.message = m, blocked = False, blockReason = None\<rparr>,
           calls = [], after = s\<rparr>)
   \<and> (getSortedOutputInterceptors s = [] \<longrightarrow>
        executeOutputInterceptors e mo now s =
          \<lparr>returned = Inr \<lparr>OutputPipelineResult.event = e, blocked = False\<rparr>,
           calls = [], after = s\<rparr>)"
  by (simp add: no_input_selected [symmetric] no_output_selected [symmetric]
        executeInputInterceptors_def executeOutputInterceptors_def)

theorem nothing_selected_nothing_done_witness:
  "executeInputInterceptors ''hi'' None None 0 testManager =
     \<lparr>returned = Inr \<lparr>InputPipelineResult.message = ''hi'', blocked = False, blockReason = None\<rparr>,
      calls = [], after = testManager\<rparr>
   \<and> executeInputInterceptors ''hi'' None None 0
        (register (disabledSpy ''d'' None) testManager) =
     \<lparr>returned = Inr \<lparr>InputPipelineResult.message = ''hi'', blocked = False, blockReason = None\<rparr>,
      calls = [], after = register (disabledSpy ''d'' None) testManager\<rparr>
   \<and> executeInputInterceptors ''hi'' None None 0
        (register (outputSpy ''o'' None) testManager) =
     \<lparr>returned = Inr \<lparr>InputPipelineResult.message = ''hi'', blocked = False, blockReason = None\<rparr>,
      calls = [], after = register (outputSpy ''o'' None) testManager\<rparr>
   \<and> executeOutputInterceptors ''ev'' None 0
        (register (spy ''i'' None) testManager) =
     \<lparr>returned = Inr \<lparr>OutputPipelineResult.event = ''ev'', blocked = False\<rparr>,
      calls = [], after = register (spy ''i'' None) testManager\<rparr>"
proof -
  let ?new = testManager
  have a: "getSortedInputInterceptors ?new = []"
    and b: "getSortedInputInterceptors (register (disabledSpy ''d'' None) ?new) = []"
    and c: "getSortedInputInterceptors (register (outputSpy ''o'' None) ?new) = []"
    and d: "getSortedOutputInterceptors (register (spy ''i'' None) ?new) = []"
    by (simp_all add: registry_eval example_sel)
  show ?thesis
    using nothing_selected_nothing_done [of ?new "''hi''" None None 0 "''ev''"]
      nothing_selected_nothing_done [of "register (disabledSpy ''d'' None) ?new" "''hi''" None None 0 "''ev''"]
      nothing_selected_nothing_done [of "register (outputSpy ''o'' None) ?new" "''hi''" None None 0 "''ev''"]
      nothing_selected_nothing_done [of "register (spy ''i'' None) ?new" "''hi''" None None 0 "''ev''"]
      a b c d
    by simp
qed

section \<open>The scenario of the two prefixing handlers\<close>

text \<open>
  C5. Handler A (priority 10) returns \<^verbatim>\<open>{message: "A:" + input.message}\<close> and handler
  B (priority 1) returns \<^verbatim>\<open>{message: "B:" + input.message}\<close>. On a registry that holds
  the two, in either order of registration, the input pipeline returns for every message
  \<open>m\<close> the message \<open>''B:A:'' @ m\<close> with \<^verbatim>\<open>blocked: false\<close> and no block reason; on
  \<open>''hi''\<close> that is \<open>''B:A:hi''\<close>. A is invoked first, on \<open>''hi''\<close>, and B then on
  \<open>''A:hi''\<close>: the replacement of a handler is the message the next one is given.
\<close>

theorem scenario_A_then_B:
  fixes s :: "(string, string, string, string) ManagerState"
  defines "A \<equiv> prefixer ''A'' (Some 10) ''A:''" and "B \<equiv> prefixer ''B'' (Some 1) ''B:''"
  assumes holds: "mapValues (interceptors s) = [A, B] \<or> mapValues (interceptors s) = [B, A]"
  shows
  "returned (executeInputInterceptors m mo re now s)
     = Inr \<lparr>InputPipelineResult.message = ''B:A:'' @ m, blocked = False, blockReason = None\<rparr>
   \<and> returned (executeInputInterceptors ''hi'' mo re now s)
     = Inr \<lparr>InputPipelineResult.message = ''B:A:hi'', blocked = False, blockReason = None\<rparr>
   \<and> map (\<lambda>k. (id' (callee k), InputData.message (passedData k)))
        (calls (executeInputInterceptors ''hi'' mo re now s))
     = [(''A'', ''hi''), (''B'', ''A:hi'')]"
proof -
  have sel: "getSortedInputInterceptors s = [A, B]"
    using holds
    by (auto simp: getSortedInputInterceptors_def A_def B_def example_sel compareFn_def nullish_def
        sortCompare_def fromInt_def)
  show ?thesis
    unfolding executeInput_loop sel
    by (simp add: A_def B_def example_sel Let_def invoked_simps)
qed

theorem scenario_A_then_B_witness:
  "returned (executeInputInterceptors ''hi'' (Some ''gemini'') (Some False) 7
      (register (prefixer ''B'' (Some 1) ''B:'')
         (register (prefixer ''A'' (Some 10) ''A:'') testManager)))
     = Inr \<lparr>InputPipelineResult.message = ''B:A:hi'', blocked = False, blockReason = None\<rparr>
   \<and> returned (executeInputInterceptors ''hi'' (Some ''gemini'') (Some False) 7
      (register (prefixer ''A'' (Some 10) ''A:'')
         (register (prefixer ''B'' (Some 1) ''B:'') testManager)))
     = Inr \<lparr>InputPipelineResult.message = ''B:A:hi'', blocked = False, blockReason = None\<rparr>
   \<and> mapValues (interceptors (register (prefixer ''B'' (Some 1) ''B:'')
         (register (prefixer ''A'' (Some 10) ''A:'') testManager)))
     = [prefixer ''A'' (Some 10) ''A:'', prefixer ''B'' (Some 1) ''B:'']
   \<and> mapValues (interceptors (register (prefixer ''A'' (Some 10) ''A:'')
         (register (prefixer ''B'' (Some 1) ''B:'') testManager)))
     = [prefixer ''B'' (Some 1) ''B:'', prefixer ''A'' (Some 10) ''A:'']"
proof -
  let ?A = "prefixer ''A'' (Some 10) ''A:''" and ?B = "prefixer ''B'' (Some 1) ''B:''"
  have ab: "mapValues (interceptors (register ?B (register ?A testManager))) = [?A, ?B]"
    and ba: "mapValues (interceptors (register ?A (register ?B testManager))) = [?B, ?A]"
    by (simp_all add: interceptors_register mapValues_def example_sel testManager_def
        new_InterceptorManager_def)
  show ?thesis
    using scenario_A_then_B [of "register ?B (register ?A testManager)" "''hi''" "Some ''gemini''"
        "Some False" 7]
      scenario_A_then_B [of "register ?A (register ?B testManager)" "''hi''" "Some ''gemini''"
        "Some False" 7]
      ab ba
    by simp
qed

section \<open>Order of invocation\<close>








section \<open>A block ends the run\<close>

text \<open>
  C1. In a run of either pipeline, an invocation whose handler returns a result with
  \<^verbatim>\<open>blocked\<close> true is the last invocation of the run (no handler ordered after it is
  invoked), and the run returns \<^verbatim>\<open>blocked: true\<close> with the message (the event) that
  was passed to that handler, which is the running value before its result: a replacement
  in the blocking result is not used. For input the returned \<^verbatim>\<open>blockReason\<close> is the
  one of the blocking result.
\<close>

theorem block_stops_the_run:
  fixes s :: "('m, 'o, 'x, 'v) ManagerState" and m mo re now e
  defines "run \<equiv> executeInputInterceptors m mo re now s"
    and "orun \<equiv> executeOutputInterceptors e mo now s"
  shows
  "(i < length (calls run) \<and> inputBlocks (calls run ! i) \<longrightarrow>
      Suc i = length (calls run)
      \<and> returned run =
          Inr \<lparr>InputPipelineResult.message = InputData.message (passedData (calls run ! i)),
               blocked = True, blockReason = inputReason (calls run ! i)\<rparr>)
   \<and> (i < length (calls orun) \<and> outputBlocks (calls orun ! i) \<longrightarrow>
      Suc i = length (calls orun)
      \<and> returned orun =
          Inr \<lparr>OutputPipelineResult.event = OutputData.event (passedData (calls orun ! i)),
               blocked = True\<rparr>)"
proof -
  have "Suc i = length (calls run)
      \<and> returned run =
          Inr \<lparr>InputPipelineResult.message = InputData.message (passedData (calls run ! i)),
               blocked = True, blockReason = inputReason (calls run ! i)\<rparr>"
    if "i < length (calls run)" "inputBlocks (calls run ! i)"
    using that unfolding run_def executeInput_loop by (rule inputLoop_blocked)
  moreover have "Suc i = length (calls orun)
      \<and> returned orun =
          Inr \<lparr>OutputPipelineResult.event = OutputData.event (passedData (calls orun ! i)),
               blocked = True\<rparr>"
    if "i < length (calls orun)" "outputBlocks (calls orun ! i)"
    using that unfolding orun_def executeOutput_loop by (rule outputLoop_blocked)
  ultimately show ?thesis by blast
qed

theorem block_stops_the_run_witness:
  "map (\<lambda>k. (id' (callee k), InputData.message (passedData k), inputBlocks k))
     (calls (executeInputInterceptors ''hi'' None None 0
        (register (spy ''C'' (Some 1)) (register (blocker ''B'' (Some 5) ''x'')
          (register (prefixer ''A'' (Some 10) ''A:'') testManager)))))
     = [(''A'', ''hi'', False), (''B'', ''A:hi'', True)]
   \<and> returned (executeInputInterceptors ''hi'' None None 0
        (register (spy ''C'' (Some 1)) (register (blocker ''B'' (Some 5) ''x'')
          (register (prefixer ''A'' (Some 10) ''A:'') testManager))))
     = Inr \<lparr>InputPipelineResult.message = ''A:hi'', blocked = True, blockReason = Some ''x''\<rparr>
   \<and> map (\<lambda>k. (id' (callee k), OutputData.event (passedData k), outputBlocks k))
     (calls (executeOutputInterceptors ''ev'' None 0
        (register (outputSpy ''C'' (Some 1)) (register (outputBlocker ''B'' (Some 5))
          (register (outputRewriter ''A'' (Some 10) ''ev2'') testManager)))))
     = [(''A'', ''ev'', False), (''B'', ''ev2'', True)]
   \<and> returned (executeOutputInterceptors ''ev'' None 0
        (register (outputSpy ''C'' (Some 1)) (register (outputBlocker ''B'' (Some 5))
          (register (outputRewriter ''A'' (Some 10) ''ev2'') testManager))))
     = Inr \<lparr>OutputPipelineResult.event = ''ev2'', blocked = True\<rparr>"
proof -
  let ?S = "register (spy ''C'' (Some 1)) (register (blocker ''B'' (Some 5) ''x'')
          (register (prefixer ''A'' (Some 10) ''A:'') testManager))"
  let ?T = "register (outputSpy ''C'' (Some 1)) (register (outputBlocker ''B'' (Some 5))
          (register (outputRewriter ''A'' (Some 10) ''ev2'') testManager))"
  have sel_in: "getSortedInputInterceptors ?S
      = [prefixer ''A'' (Some 10) ''A:'', blocker ''B'' (Some 5) ''x'', spy ''C'' (Some 1)]"
    and sel_out: "getSortedOutputInterceptors ?T
      = [outputRewriter ''A'' (Some 10) ''ev2'', outputBlocker ''B'' (Some 5), outputSpy ''C'' (Some 1)]"
    by (simp_all add: registry_eval example_sel)
  have calls_in: "map (\<lambda>k. (id' (callee k), InputData.message (passedData k), inputBlocks k))
     (calls (executeInputInterceptors ''hi'' None None 0 ?S))
     = [(''A'', ''hi'', False), (''B'', ''A:hi'', True)]"
    unfolding executeInput_loop sel_in
    by (simp add: example_sel Let_def invoked_simps inputBlocks_def inputSettled_def)
  have calls_out: "map (\<lambda>k. (id' (callee k), OutputData.event (passedData k), outputBlocks k))
     (calls (executeOutputInterceptors ''ev'' None 0 ?T))
     = [(''A'', ''ev'', False), (''B'', ''ev2'', True)]"
    unfolding executeOutput_loop sel_out
    by (simp add: example_sel Let_def invoked_simps outputBlocks_def outputSettled_def)
  have reason: "inputReason (calls (executeInputInterceptors ''hi'' None None 0 ?S) ! 1) = Some ''x''"
    unfolding executeInput_loop sel_in
    by (simp add: example_sel Let_def invoked_simps inputReason_def inputSettled_def)
  from calls_in have in1: "1 < length (calls (executeInputInterceptors ''hi'' None None 0 ?S))"
    "inputBlocks (calls (executeInputInterceptors ''hi'' None None 0 ?S) ! 1)"
    "InputData.message (passedData (calls (executeInputInterceptors ''hi'' None None 0 ?S) ! 1)) = ''A:hi''"
    by (auto simp: map_eq_Cons_conv)
  from calls_out have out1: "1 < length (calls (executeOutputInterceptors ''ev'' None 0 ?T))"
    "outputBlocks (calls (executeOutputInterceptors ''ev'' None 0 ?T) ! 1)"
    "OutputData.event (passedData (calls (executeOutputInterceptors ''ev'' None 0 ?T) ! 1)) = ''ev2''"
    by (auto simp: map_eq_Cons_conv)
  show ?thesis
    using block_stops_the_run [where s = ?S and i = 1 and m = "''hi''" and mo = None and re = None and now = 0]
      block_stops_the_run [where s = ?T and i = 1 and e = "''ev''" and mo = None and now = 0]
      calls_in calls_out reason in1 out1
    by simp
qed

section \<open>A handler that throws\<close>





subsection \<open>Input\<close>









subsection \<open>Output\<close>

















section \<open>Metadata\<close>

lemma inputLoop_metadata_first:
  assumes "0 < length (calls (inputLoop cs d ctx m md s))"
  shows "InterceptorContext.metadata (passedContext (calls (inputLoop cs d ctx m md s) ! 0)) = Some md"
  using inputLoop_context [OF assms] by simp

lemma inputLoop_metadata_Suc:
  assumes "Suc i < length (calls (inputLoop cs d ctx m md s))"
  shows "InterceptorContext.metadata (passedContext (calls (inputLoop cs d ctx m md s) ! Suc i)) =
     Some (inputWritten (calls (inputLoop cs d ctx m md s) ! i)
             ++ inputContribution (calls (inputLoop cs d ctx m md s) ! i))"
  using inputLoop_context [OF assms] by simp

lemma inputLoop_metadata_fold:
  assumes "i < length (calls (inputLoop cs d ctx m md s))"
    and "\<forall>j<i. inputWritten (calls (inputLoop cs d ctx m md s) ! j)
            = contextMetadata (passedContext (calls (inputLoop cs d ctx m md s) ! j))"
  shows "InterceptorContext.metadata (passedContext (calls (inputLoop cs d ctx m md s) ! i)) =
     Some (foldl (++) md (map inputContribution (take i (calls (inputLoop cs d ctx m md s)))))"
  using assms
proof (induction i)
  case 0
  then show ?case by (simp add: inputLoop_metadata_first)
next
  case (Suc i)
  let ?ks = "calls (inputLoop cs d ctx m md s)"
  from Suc.prems have i: "i < length ?ks" by simp
  from Suc.prems have nw: "\<forall>j<i. inputWritten (?ks ! j) = contextMetadata (passedContext (?ks ! j))"
    and w: "inputWritten (?ks ! i) = contextMetadata (passedContext (?ks ! i))"
    by simp_all
  have ih: "InterceptorContext.metadata (passedContext (?ks ! i)) =
     Some (foldl (++) md (map inputContribution (take i ?ks)))"
    using i nw by (rule Suc.IH)
  have t: "take (Suc i) ?ks = take i ?ks @ [?ks ! i]"
    using i by (simp add: take_Suc_conv_app_nth)
  have "InterceptorContext.metadata (passedContext (?ks ! Suc i)) =
     Some (contextMetadata (passedContext (?ks ! i)) ++ inputContribution (?ks ! i))"
    using inputLoop_metadata_Suc [OF Suc.prems(1)] w by simp
  also have "contextMetadata (passedContext (?ks ! i)) = foldl (++) md (map inputContribution (take i ?ks))"
    using ih by (simp add: contextMetadata_def)
  finally show ?case
    by (simp add: t)
qed

lemma outputLoop_metadata_first:
  assumes "0 < length (calls (outputLoop cs d ctx m md s))"
  shows "InterceptorContext.metadata (passedContext (calls (outputLoop cs d ctx m md s) ! 0)) = Some md"
  using outputLoop_context [OF assms] by simp

lemma outputLoop_metadata_Suc:
  assumes "Suc i < length (calls (outputLoop cs d ctx m md s))"
  shows "InterceptorContext.metadata (passedContext (calls (outputLoop cs d ctx m md s) ! Suc i)) =
     Some (outputWritten (calls (outputLoop cs d ctx m md s) ! i)
             ++ outputContribution (calls (outputLoop cs d ctx m md s) ! i))"
  using outputLoop_context [OF assms] by simp

lemma outputLoop_metadata_fold:
  assumes "i < length (calls (outputLoop cs d ctx m md s))"
    and "\<forall>j<i. outputWritten (calls (outputLoop cs d ctx m md s) ! j)
            = contextMetadata (passedContext (calls (outputLoop cs d ctx m md s) ! j))"
  shows "InterceptorContext.metadata (passedContext (calls (outputLoop cs d ctx m md s) ! i)) =
     Some (foldl (++) md (map outputContribution (take i (calls (outputLoop cs d ctx m md s)))))"
  using assms
proof (induction i)
  case 0
  then show ?case by (simp add: outputLoop_metadata_first)
next
  case (Suc i)
  let ?ks = "calls (outputLoop cs d ctx m md s)"
  from Suc.prems have i: "i < length ?ks" by simp
  from Suc.prems have nw: "\<forall>j<i. outputWritten (?ks ! j) = contextMetadata (passedContext (?ks ! j))"
    and w: "outputWritten (?ks ! i) = contextMetadata (passedContext (?ks ! i))"
    by simp_all
  have ih: "InterceptorContext.metadata (passedContext (?ks ! i)) =
     Some (foldl (++) md (map outputContribution (take i ?ks)))"
    using i nw by (rule Suc.IH)
  have t: "take (Suc i) ?ks = take i ?ks @ [?ks ! i]"
    using i by (simp add: take_Suc_conv_app_nth)
  have "InterceptorContext.metadata (passedContext (?ks ! Suc i)) =
     Some (contextMetadata (passedContext (?ks ! i)) ++ outputContribution (?ks ! i))"
    using outputLoop_metadata_Suc [OF Suc.prems(1)] w by simp
  also have "contextMetadata (passedContext (?ks ! i)) = foldl (++) md (map outputContribution (take i ?ks))"
    using ih by (simp add: contextMetadata_def)
  finally show ?case
    by (simp add: t)
qed

text \<open>
  A handler that deletes a key from the metadata it is passed: the handler after it does
  not observe the key, which a handler before both contributed. And a handler that writes
  a key into the metadata it is passed and contributes nothing: the handler after it
  observes a key that is in no contribution.
\<close>

theorem metadata_merged_forward_counterexample:
  "map (\<lambda>k. (id' (callee k),
          map_option (\<lambda>md. md ''key'') (InterceptorContext.metadata (passedContext k)),
          inputContribution k ''key''))
     (calls (executeInputInterceptors ''test'' None None 0
        (register (spy ''reader'' (Some 1))
        (register (eraser ''eraser'' (Some 2) ''key'')
        (register (tagger ''setter'' (Some 3) ''key'' ''value'') testManager)))))
     = [(''setter'', Some None, Some ''value''),
        (''eraser'', Some (Some ''value''), None),
        (''reader'', Some None, None)]
   \<and> foldl (++) Map.empty (map inputContribution (take 2
        (calls (executeInputInterceptors ''test'' None None 0
          (register (spy ''reader'' (Some 1))
          (register (eraser ''eraser'' (Some 2) ''key'')
          (register (tagger ''setter'' (Some 3) ''key'' ''value'') testManager))))))) ''key''
     = Some ''value''
   \<and> map (\<lambda>k. (id' (callee k),
          map_option (\<lambda>md. md ''sneaked'') (InterceptorContext.metadata (passedContext k)),
          inputContribution k ''sneaked''))
     (calls (executeInputInterceptors ''test'' None None 0
        (register (spy ''reader'' (Some 1))
        (register (scribbler ''scribbler'' (Some 2) ''sneaked'' ''in'') testManager))))
     = [(''scribbler'', Some None, None), (''reader'', Some (Some ''in''), None)]
   \<and> foldl (++) Map.empty (map inputContribution (take 1
        (calls (executeInputInterceptors ''test'' None None 0
          (register (spy ''reader'' (Some 1))
          (register (scribbler ''scribbler'' (Some 2) ''sneaked'' ''in'') testManager)))))) ''sneaked''
     = None"
proof -
  let ?E = "register (spy ''reader'' (Some 1))
        (register (eraser ''eraser'' (Some 2) ''key'')
        (register (tagger ''setter'' (Some 3) ''key'' ''value'') testManager))"
  let ?W = "register (spy ''reader'' (Some 1))
        (register (scribbler ''scribbler'' (Some 2) ''sneaked'' ''in'') testManager)"
  have sel: "getSortedInputInterceptors ?E
      = [tagger ''setter'' (Some 3) ''key'' ''value'', eraser ''eraser'' (Some 2) ''key'',
         spy ''reader'' (Some 1)]"
    "getSortedInputInterceptors ?W
      = [scribbler ''scribbler'' (Some 2) ''sneaked'' ''in'', spy ''reader'' (Some 1)]"
    by (simp_all add: registry_eval example_sel)
  show ?thesis
    unfolding executeInput_loop sel
    by (simp add: example_sel Let_def invoked_simps inputContribution_def inputSettled_def
        contextMetadata_def)
qed

text \<open>
  C3 (amended). The first invocation of any run has empty metadata, whatever the state:
  also in a run, of either direction, that starts in the state an earlier run has left
  (\<open>run2\<close>, \<open>orun2\<close>). From one invocation to the next, a key of the contribution
  has the contributed value, and every other key has the value the handler left it with
  in the metadata object it was passed, which is the value it had when the handler did
  not write into the object; a contribution is the \<^verbatim>\<open>metadata\<close> of the handler's
  result, and nothing when the handler threw, returned nothing or gave none. When no
  invocation before the \<open>i\<close>-th wrote into the metadata object it was passed, the
  context of the \<open>i\<close>-th invocation carries as metadata the contributions of the
  invocations before it, merged in order from the empty mapping. The same for output.
\<close>

theorem metadata_merged_forward:
  fixes s :: "('m, 'o, 'x, 'v) ManagerState" and m mo re now e m2 mo2 re2 now2 e2
  defines "run \<equiv> executeInputInterceptors m mo re now s"
    and "orun \<equiv> executeOutputInterceptors e mo now s"
  defines "run2 \<equiv> executeInputInterceptors m2 mo2 re2 now2 (after run)"
    and "orun2 \<equiv> executeOutputInterceptors e2 mo2 now2 (after run)"
  shows
  "(0 < length (calls run) \<longrightarrow>
      InterceptorContext.metadata (passedContext (calls run ! 0)) = Some Map.empty)
   \<and> (0 < length (calls orun) \<longrightarrow>
      InterceptorContext.metadata (passedContext (calls orun ! 0)) = Some Map.empty)
   \<and> (0 < length (calls run2) \<longrightarrow>
      InterceptorContext.metadata (passedContext (calls run2 ! 0)) = Some Map.empty)
   \<and> (0 < length (calls orun2) \<longrightarrow>
      InterceptorContext.metadata (passedContext (calls orun2 ! 0)) = Some Map.empty)
   \<and> (Suc i < length (calls run) \<longrightarrow>
      (\<exists>md2.
         InterceptorContext.metadata (passedContext (calls run ! Suc i)) = Some md2
         \<and> (\<forall>x. md2 x = (case inputContribution (calls run ! i) x of
                             None \<Rightarrow> inputWritten (calls run ! i) x | Some v \<Rightarrow> Some v))))
   \<and> (Suc i < length (calls run)
       \<and> inputWritten (calls run ! i) = contextMetadata (passedContext (calls run ! i)) \<longrightarrow>
      (\<exists>md1 md2.
         InterceptorContext.metadata (passedContext (calls run ! i)) = Some md1
         \<and> InterceptorContext.metadata (passedContext (calls run ! Suc i)) = Some md2
         \<and> (\<forall>x. md2 x = (case inputContribution (calls run ! i) x of
                             None \<Rightarrow> md1 x | Some v \<Rightarrow> Some v))))
   \<and> (i < length (calls run)
       \<and> (\<forall>j<i. inputWritten (calls run ! j) = contextMetadata (passedContext (calls run ! j))) \<longrightarrow>
      InterceptorContext.metadata (passedContext (calls run ! i)) =
        Some (foldl (++) Map.empty (map inputContribution (take i (calls run)))))
   \<and> (Suc i < length (calls orun) \<longrightarrow>
      (\<exists>md2.
         InterceptorContext.metadata (passedContext (calls orun ! Suc i)) = Some md2
         \<and> (\<forall>x. md2 x = (case outputContribution (calls orun ! i) x of
                             None \<Rightarrow> outputWritten (calls orun ! i) x | Some v \<Rightarrow> Some v))))
   \<and> (Suc i < length (calls orun)
       \<and> outputWritten (calls orun ! i) = contextMetadata (passedContext (calls orun ! i)) \<longrightarrow>
      (\<exists>md1 md2.
         InterceptorContext.metadata (passedContext (calls orun ! i)) = Some md1
         \<and> InterceptorContext.metadata (passedContext (calls orun ! Suc i)) = Some md2
         \<and> (\<forall>x. md2 x = (case outputContribution (calls orun ! i) x of
                             None \<Rightarrow> md1 x | Some v \<Rightarrow> Some v))))
   \<and> (i < length (calls orun)
       \<and> (\<forall>j<i. outputWritten (calls orun ! j) = contextMetadata (passedContext (calls orun ! j))) \<longrightarrow>
      InterceptorContext.metadata (passedContext (calls orun ! i)) =
        Some (foldl (++) Map.empty (map outputContribution (take i (calls orun)))))"
proof -
  have c: "0 < length (calls (executeInputInterceptors x y z w t)) \<longrightarrow>
      InterceptorContext.metadata (passedContext (calls (executeInputInterceptors x y z w t) ! 0)) = Some Map.empty"
    for x y z w and t :: "('m, 'o, 'x, 'v) ManagerState"
    unfolding executeInput_loop by (rule impI) (rule inputLoop_metadata_first)
  have c': "0 < length (calls (executeOutputInterceptors x y w t)) \<longrightarrow>
      InterceptorContext.metadata (passedContext (calls (executeOutputInterceptors x y w t) ! 0)) = Some Map.empty"
    for x y w and t :: "('m, 'o, 'x, 'v) ManagerState"
    unfolding executeOutput_loop by (rule impI) (rule outputLoop_metadata_first)
  have c1: "0 < length (calls run) \<longrightarrow>
      InterceptorContext.metadata (passedContext (calls run ! 0)) = Some Map.empty"
    unfolding run_def by (rule c)
  have c2: "0 < length (calls orun) \<longrightarrow>
      InterceptorContext.metadata (passedContext (calls orun ! 0)) = Some Map.empty"
    unfolding orun_def by (rule c')
  have c3: "0 < length (calls run2) \<longrightarrow>
      InterceptorContext.metadata (passedContext (calls run2 ! 0)) = Some Map.empty"
    unfolding run2_def by (rule c)
  have c4: "0 < length (calls orun2) \<longrightarrow>
      InterceptorContext.metadata (passedContext (calls orun2 ! 0)) = Some Map.empty"
    unfolding orun2_def by (rule c')
  have sI: "Suc i < length (calls run) \<longrightarrow>
      (\<exists>md2.
         InterceptorContext.metadata (passedContext (calls run ! Suc i)) = Some md2
         \<and> (\<forall>x. md2 x = (case inputContribution (calls run ! i) x of
                             None \<Rightarrow> inputWritten (calls run ! i) x | Some v \<Rightarrow> Some v)))"
  proof
    assume h: "Suc i < length (calls run)"
    have "InterceptorContext.metadata (passedContext (calls run ! Suc i)) =
        Some (inputWritten (calls run ! i) ++ inputContribution (calls run ! i))"
      using h unfolding run_def executeInput_loop by (rule inputLoop_metadata_Suc)
    then show "\<exists>md2.
         InterceptorContext.metadata (passedContext (calls run ! Suc i)) = Some md2
         \<and> (\<forall>x. md2 x = (case inputContribution (calls run ! i) x of
                             None \<Rightarrow> inputWritten (calls run ! i) x | Some v \<Rightarrow> Some v))"
      by (simp add: map_add_def)
  qed
  have nI: "Suc i < length (calls run)
       \<and> inputWritten (calls run ! i) = contextMetadata (passedContext (calls run ! i)) \<longrightarrow>
      (\<exists>md1 md2.
         InterceptorContext.metadata (passedContext (calls run ! i)) = Some md1
         \<and> InterceptorContext.metadata (passedContext (calls run ! Suc i)) = Some md2
         \<and> (\<forall>x. md2 x = (case inputContribution (calls run ! i) x of
                             None \<Rightarrow> md1 x | Some v \<Rightarrow> Some v)))"
  proof
    assume h: "Suc i < length (calls run)
       \<and> inputWritten (calls run ! i) = contextMetadata (passedContext (calls run ! i))"
    then have i: "i < length (calls run)" by simp
    have a: "InterceptorContext.metadata (passedContext (calls run ! Suc i)) =
        Some (inputWritten (calls run ! i) ++ inputContribution (calls run ! i))"
      using h [THEN conjunct1] unfolding run_def executeInput_loop by (rule inputLoop_metadata_Suc)
    have "\<exists>md1. InterceptorContext.metadata (passedContext (calls run ! i)) = Some md1"
      using inputLoop_context [OF i [unfolded run_def executeInput_loop]] unfolding run_def executeInput_loop by simp
    then obtain md1 where b: "InterceptorContext.metadata (passedContext (calls run ! i)) = Some md1" ..
    then have c: "contextMetadata (passedContext (calls run ! i)) = md1"
      by (simp add: contextMetadata_def)
    have "\<forall>x. (inputWritten (calls run ! i) ++ inputContribution (calls run ! i)) x =
        (case inputContribution (calls run ! i) x of None \<Rightarrow> md1 x | Some v \<Rightarrow> Some v)"
      using h c by (simp add: map_add_def)
    with a b show "\<exists>md1 md2.
         InterceptorContext.metadata (passedContext (calls run ! i)) = Some md1
         \<and> InterceptorContext.metadata (passedContext (calls run ! Suc i)) = Some md2
         \<and> (\<forall>x. md2 x = (case inputContribution (calls run ! i) x of
                             None \<Rightarrow> md1 x | Some v \<Rightarrow> Some v))"
      by blast
  qed
  have fI: "i < length (calls run)
       \<and> (\<forall>j<i. inputWritten (calls run ! j) = contextMetadata (passedContext (calls run ! j))) \<longrightarrow>
      InterceptorContext.metadata (passedContext (calls run ! i)) =
        Some (foldl (++) Map.empty (map inputContribution (take i (calls run))))"
  proof
    assume h: "i < length (calls run)
       \<and> (\<forall>j<i. inputWritten (calls run ! j) = contextMetadata (passedContext (calls run ! j)))"
    show "InterceptorContext.metadata (passedContext (calls run ! i)) =
        Some (foldl (++) Map.empty (map inputContribution (take i (calls run))))"
      using h [THEN conjunct1] h [THEN conjunct2]
      unfolding run_def executeInput_loop by (rule inputLoop_metadata_fold)
  qed
  have sO: "Suc i < length (calls orun) \<longrightarrow>
      (\<exists>md2.
         InterceptorContext.metadata (passedContext (calls orun ! Suc i)) = Some md2
         \<and> (\<forall>x. md2 x = (case outputContribution (calls orun ! i) x of
                             None \<Rightarrow> outputWritten (calls orun ! i) x | Some v \<Rightarrow> Some v)))"
  proof
    assume h: "Suc i < length (calls orun)"
    have "InterceptorContext.metadata (passedContext (calls orun ! Suc i)) =
        Some (outputWritten (calls orun ! i) ++ outputContribution (calls orun ! i))"
      using h unfolding orun_def executeOutput_loop by (rule outputLoop_metadata_Suc)
    then show "\<exists>md2.
         InterceptorContext.metadata (passedContext (calls orun ! Suc i)) = Some md2
         \<and> (\<forall>x. md2 x = (case outputContribution (calls orun ! i) x of
                             None \<Rightarrow> outputWritten (calls orun ! i) x | Some v \<Rightarrow> Some v))"
      by (simp add: map_add_def)
  qed
  have nO: "Suc i < length (calls orun)
       \<and> outputWritten (calls orun ! i) = contextMetadata (passedContext (calls orun ! i)) \<longrightarrow>
      (\<exists>md1 md2.
         InterceptorContext.metadata (passedContext (calls orun ! i)) = Some md1
         \<and> InterceptorContext.metadata (passedContext (calls orun ! Suc i)) = Some md2
         \<and> (\<forall>x. md2 x = (case outputContribution (calls orun ! i) x of
                             None \<Rightarrow> md1 x | Some v \<Rightarrow> Some v)))"
  proof
    assume h: "Suc i < length (calls orun)
       \<and> outputWritten (calls orun ! i) = contextMetadata (passedContext (calls orun ! i))"
    then have i: "i < length (calls orun)" by simp
    have a: "InterceptorContext.metadata (passedContext (calls orun ! Suc i)) =
        Some (outputWritten (calls orun ! i) ++ outputContribution (calls orun ! i))"
      using h [THEN conjunct1] unfolding orun_def executeOutput_loop by (rule outputLoop_metadata_Suc)
    have "\<exists>md1. InterceptorContext.metadata (passedContext (calls orun ! i)) = Some md1"
      using outputLoop_context [OF i [unfolded orun_def executeOutput_loop]] unfolding orun_def executeOutput_loop by simp
    then obtain md1 where b: "InterceptorContext.metadata (passedContext (calls orun ! i)) = Some md1" ..
    then have c: "contextMetadata (passedContext (calls orun ! i)) = md1"
      by (simp add: contextMetadata_def)
    have "\<forall>x. (outputWritten (calls orun ! i) ++ outputContribution (calls orun ! i)) x =
        (case outputContribution (calls orun ! i) x of None \<Rightarrow> md1 x | Some v \<Rightarrow> Some v)"
      using h c by (simp add: map_add_def)
    with a b show "\<exists>md1 md2.
         InterceptorContext.metadata (passedContext (calls orun ! i)) = Some md1
         \<and> InterceptorContext.metadata (passedContext (calls orun ! Suc i)) = Some md2
         \<and> (\<forall>x. md2 x = (case outputContribution (calls orun ! i) x of
                             None \<Rightarrow> md1 x | Some v \<Rightarrow> Some v))"
      by blast
  qed
  have fO: "i < length (calls orun)
       \<and> (\<forall>j<i. outputWritten (calls orun ! j) = contextMetadata (passedContext (calls orun ! j))) \<longrightarrow>
      InterceptorContext.metadata (passedContext (calls orun ! i)) =
        Some (foldl (++) Map.empty (map outputContribution (take i (calls orun))))"
  proof
    assume h: "i < length (calls orun)
       \<and> (\<forall>j<i. outputWritten (calls orun ! j) = contextMetadata (passedContext (calls orun ! j)))"
    show "InterceptorContext.metadata (passedContext (calls orun ! i)) =
        Some (foldl (++) Map.empty (map outputContribution (take i (calls orun))))"
      using h [THEN conjunct1] h [THEN conjunct2]
      unfolding orun_def executeOutput_loop by (rule outputLoop_metadata_fold)
  qed
  show ?thesis
    using c1 c2 c3 c4 sI nI fI sO nO fO by (intro conjI) assumption+
qed

theorem metadata_merged_forward_witness:
  "map (\<lambda>k. (id' (callee k),
          map_option (\<lambda>md. (md ''key'', md ''k2'')) (InterceptorContext.metadata (passedContext k))))
     (calls (executeInputInterceptors ''test'' None None 0
        (register (outputSpy ''output-reader'' (Some 1))
        (register (outputTagger ''output-setter'' (Some 2) ''key'' ''value'')
        (register (spy ''metadata-reader'' (Some 1))
        (register (tagger ''t3'' (Some 2) ''key'' ''new'')
        (register (tagger ''t2'' (Some 3) ''k2'' ''v2'')
        (register (tagger ''metadata-setter'' (Some 4) ''key'' ''value'') testManager))))))))
     = [(''metadata-setter'', Some (None, None)),
        (''t2'', Some (Some ''value'', None)),
        (''t3'', Some (Some ''value'', Some ''v2'')),
        (''metadata-reader'', Some (Some ''new'', Some ''v2''))]
   \<and> InterceptorContext.metadata (passedContext
       (calls (executeInputInterceptors ''test'' None None 0
        (register (outputSpy ''output-reader'' (Some 1))
        (register (outputTagger ''output-setter'' (Some 2) ''key'' ''value'')
        (register (spy ''metadata-reader'' (Some 1))
        (register (tagger ''t3'' (Some 2) ''key'' ''new'')
        (register (tagger ''t2'' (Some 3) ''k2'' ''v2'')
        (register (tagger ''metadata-setter'' (Some 4) ''key'' ''value'') testManager))))))) ! 3))
     = Some (foldl (++) Map.empty (map inputContribution (take 3
       (calls (executeInputInterceptors ''test'' None None 0
        (register (outputSpy ''output-reader'' (Some 1))
        (register (outputTagger ''output-setter'' (Some 2) ''key'' ''value'')
        (register (spy ''metadata-reader'' (Some 1))
        (register (tagger ''t3'' (Some 2) ''key'' ''new'')
        (register (tagger ''t2'' (Some 3) ''k2'' ''v2'')
        (register (tagger ''metadata-setter'' (Some 4) ''key'' ''value'') testManager)))))))))))
   \<and> map (\<lambda>k. (id' (callee k),
          map_option (\<lambda>md. (md ''key'', md ''k2'')) (InterceptorContext.metadata (passedContext k))))
     (calls (executeOutputInterceptors ''ev'' None 0
        (register (outputSpy ''output-reader'' (Some 1))
        (register (outputTagger ''output-setter'' (Some 2) ''key'' ''value'')
        (register (spy ''metadata-reader'' (Some 1))
        (register (tagger ''t3'' (Some 2) ''key'' ''new'')
        (register (tagger ''t2'' (Some 3) ''k2'' ''v2'')
        (register (tagger ''metadata-setter'' (Some 4) ''key'' ''value'') testManager))))))))
     = [(''output-setter'', Some (None, None)), (''output-reader'', Some (Some ''value'', None))]
   \<and> InterceptorContext.metadata (passedContext
       (calls (executeOutputInterceptors ''ev'' None 0
        (register (outputSpy ''output-reader'' (Some 1))
        (register (outputTagger ''output-setter'' (Some 2) ''key'' ''value'')
        (register (spy ''metadata-reader'' (Some 1))
        (register (tagger ''t3'' (Some 2) ''key'' ''new'')
        (register (tagger ''t2'' (Some 3) ''k2'' ''v2'')
        (register (tagger ''metadata-setter'' (Some 4) ''key'' ''value'') testManager))))))) ! 1))
     = Some (foldl (++) Map.empty (map outputContribution (take 1
       (calls (executeOutputInterceptors ''ev'' None 0
        (register (outputSpy ''output-reader'' (Some 1))
        (register (outputTagger ''output-setter'' (Some 2) ''key'' ''value'')
        (register (spy ''metadata-reader'' (Some 1))
        (register (tagger ''t3'' (Some 2) ''key'' ''new'')
        (register (tagger ''t2'' (Some 3) ''k2'' ''v2'')
        (register (tagger ''metadata-setter'' (Some 4) ''key'' ''value'') testManager)))))))))))
   \<and> map (\<lambda>k. (id' (callee k),
          map_option (\<lambda>md. (md ''key'', md ''k2'')) (InterceptorContext.metadata (passedContext k))))
     (take 1 (calls (executeInputInterceptors ''again'' None None 1
        (after (executeInputInterceptors ''test'' None None 0
        (register (outputSpy ''output-reader'' (Some 1))
        (register (outputTagger ''output-setter'' (Some 2) ''key'' ''value'')
        (register (spy ''metadata-reader'' (Some 1))
        (register (tagger ''t3'' (Some 2) ''key'' ''new'')
        (register (tagger ''t2'' (Some 3) ''k2'' ''v2'')
        (register (tagger ''metadata-setter'' (Some 4) ''key'' ''value'') testManager)))))))))))
     = [(''metadata-setter'', Some (None, None))]
   \<and> map (\<lambda>k. (id' (callee k),
          map_option (\<lambda>md. (md ''key'', md ''k2'')) (InterceptorContext.metadata (passedContext k))))
     (take 1 (calls (executeOutputInterceptors ''ev'' None 1
        (after (executeInputInterceptors ''test'' None None 0
        (register (outputSpy ''output-reader'' (Some 1))
        (register (outputTagger ''output-setter'' (Some 2) ''key'' ''value'')
        (register (spy ''metadata-reader'' (Some 1))
        (register (tagger ''t3'' (Some 2) ''key'' ''new'')
        (register (tagger ''t2'' (Some 3) ''k2'' ''v2'')
        (register (tagger ''metadata-setter'' (Some 4) ''key'' ''value'') testManager)))))))))))
     = [(''output-setter'', Some (None, None))]
   \<and> map_option (\<lambda>md. md ''key'')
       (InterceptorContext.metadata (passedContext
         (calls (executeInputInterceptors ''test'' None None 0
           (register (spy ''reader'' (Some 1))
           (register (eraser ''eraser'' (Some 2) ''key'')
           (register (tagger ''setter'' (Some 3) ''key'' ''value'') testManager)))) ! Suc (Suc 0))))
     = Some None
   \<and> map_option (\<lambda>md. md ''key'')
       (InterceptorContext.metadata (passedContext
         (calls (executeOutputInterceptors ''ev'' None 0
           (register (outputSpy ''reader'' (Some 1))
           (register (outputEraser ''eraser'' (Some 2) ''key'')
           (register (outputTagger ''setter'' (Some 3) ''key'' ''value'') testManager)))) ! Suc (Suc 0))))
     = Some None"
proof -
  let ?S = "register (outputSpy ''output-reader'' (Some 1))
        (register (outputTagger ''output-setter'' (Some 2) ''key'' ''value'')
        (register (spy ''metadata-reader'' (Some 1))
        (register (tagger ''t3'' (Some 2) ''key'' ''new'')
        (register (tagger ''t2'' (Some 3) ''k2'' ''v2'')
        (register (tagger ''metadata-setter'' (Some 4) ''key'' ''value'') testManager)))))"
  let ?E = "register (spy ''reader'' (Some 1))
           (register (eraser ''eraser'' (Some 2) ''key'')
           (register (tagger ''setter'' (Some 3) ''key'' ''value'') testManager))"
  let ?F = "register (outputSpy ''reader'' (Some 1))
           (register (outputEraser ''eraser'' (Some 2) ''key'')
           (register (outputTagger ''setter'' (Some 3) ''key'' ''value'') testManager))"
  let ?ins = "[tagger ''metadata-setter'' (Some 4) ''key'' ''value'', tagger ''t2'' (Some 3) ''k2'' ''v2'',
         tagger ''t3'' (Some 2) ''key'' ''new'', spy ''metadata-reader'' (Some 1)]"
  let ?outs = "[outputTagger ''output-setter'' (Some 2) ''key'' ''value'', outputSpy ''output-reader'' (Some 1)]"
  let ?run = "executeInputInterceptors ''test'' None None 0 ?S"
  let ?orun = "executeOutputInterceptors ''ev'' None 0 ?S"
  let ?run2 = "executeInputInterceptors ''again'' None None 1 (after ?run)"
  let ?orun2 = "executeOutputInterceptors ''ev'' None 1 (after ?run)"
  let ?erun = "executeInputInterceptors ''test'' None None 0 ?E"
  let ?frun = "executeOutputInterceptors ''ev'' None 0 ?F"
  let ?see = "\<lambda>k :: (Config, 'd, string) Invocation. (id' (callee k),
          map_option (\<lambda>md. (md ''key'', md ''k2'')) (InterceptorContext.metadata (passedContext k)))"
  have sel: "getSortedInputInterceptors ?S = ?ins" "getSortedOutputInterceptors ?S = ?outs"
    "getSortedInputInterceptors ?E
      = [tagger ''setter'' (Some 3) ''key'' ''value'', eraser ''eraser'' (Some 2) ''key'',
         spy ''reader'' (Some 1)]"
    "getSortedOutputInterceptors ?F
      = [outputTagger ''setter'' (Some 3) ''key'' ''value'', outputEraser ''eraser'' (Some 2) ''key'',
         outputSpy ''reader'' (Some 1)]"
    by (simp_all add: registry_eval example_sel)
  have sel2: "getSortedInputInterceptors (after ?run) = ?ins"
    "getSortedOutputInterceptors (after ?run) = ?outs"
    unfolding executeInput_loop sel
    by (simp_all add: registry_eval example_sel Let_def invoked_simps applyCalls_def
        debugLogger_debug_def)
  have ids: "map (\<lambda>k. id' (callee k)) (calls ?run) = [''metadata-setter'', ''t2'', ''t3'', ''metadata-reader'']"
    "map (\<lambda>k. id' (callee k)) (calls ?orun) = [''output-setter'', ''output-reader'']"
    "map (\<lambda>k. id' (callee k)) (calls ?erun) = [''setter'', ''eraser'', ''reader'']"
    "map (\<lambda>k. id' (callee k)) (calls ?frun) = [''setter'', ''eraser'', ''reader'']"
    unfolding executeInput_loop executeOutput_loop sel
    by (simp_all add: example_sel Let_def invoked_simps)
  have ids2: "map (\<lambda>k. id' (callee k)) (calls ?run2) = [''metadata-setter'', ''t2'', ''t3'', ''metadata-reader'']"
    "map (\<lambda>k. id' (callee k)) (calls ?orun2) = [''output-setter'', ''output-reader'']"
    unfolding executeInput_loop [of "''again''"] executeOutput_loop [of _ _ 1] sel2
    by (simp_all add: example_sel Let_def invoked_simps)
  have see: "map ?see (calls ?run) = [(''metadata-setter'', Some (None, None)),
        (''t2'', Some (Some ''value'', None)),
        (''t3'', Some (Some ''value'', Some ''v2'')),
        (''metadata-reader'', Some (Some ''new'', Some ''v2''))]"
    "map ?see (calls ?orun) = [(''output-setter'', Some (None, None)), (''output-reader'', Some (Some ''value'', None))]"
    unfolding executeInput_loop executeOutput_loop sel
    by (simp_all add: example_sel Let_def invoked_simps contextMetadata_def)
  have nw: "list_all (\<lambda>k. inputWritten k = contextMetadata (passedContext k)) (calls ?run)"
    "list_all (\<lambda>k. outputWritten k = contextMetadata (passedContext k)) (calls ?orun)"
    unfolding executeInput_loop executeOutput_loop sel
    by (simp_all add: example_sel Let_def invoked_simps inputWritten_def outputWritten_def)
  have erased: "inputWritten (calls ?erun ! Suc 0) ''key'' = None"
    "inputContribution (calls ?erun ! Suc 0) ''key'' = None"
    "outputWritten (calls ?frun ! Suc 0) ''key'' = None"
    "outputContribution (calls ?frun ! Suc 0) ''key'' = None"
    unfolding executeInput_loop executeOutput_loop sel
    by (simp_all add: example_sel Let_def invoked_simps inputWritten_def outputWritten_def
        inputContribution_def outputContribution_def inputSettled_def outputSettled_def)
  from ids ids2 have len: "3 < length (calls ?run)" "1 < length (calls ?orun)"
    "0 < length (calls ?run2)" "0 < length (calls ?orun2)"
    "Suc (Suc 0) < length (calls ?erun)" "Suc (Suc 0) < length (calls ?frun)"
    by (auto simp: map_eq_Cons_conv)
  have nwi: "\<forall>j<3. inputWritten (calls ?run ! j) = contextMetadata (passedContext (calls ?run ! j))"
  proof (intro allI impI)
    fix j :: nat
    assume "j < 3"
    with len(1) have "j < length (calls ?run)" by arith
    from nw(1) [unfolded list_all_length, rule_format, OF this]
    show "inputWritten (calls ?run ! j) = contextMetadata (passedContext (calls ?run ! j))" .
  qed
  have nwo: "\<forall>j<1. outputWritten (calls ?orun ! j) = contextMetadata (passedContext (calls ?orun ! j))"
  proof (intro allI impI)
    fix j :: nat
    assume "j < 1"
    with len(2) have "j < length (calls ?orun)" by arith
    from nw(2) [unfolded list_all_length, rule_format, OF this]
    show "outputWritten (calls ?orun ! j) = contextMetadata (passedContext (calls ?orun ! j))" .
  qed
  have first: "id' (callee (calls ?run2 ! 0)) = ''metadata-setter''"
    "id' (callee (calls ?orun2 ! 0)) = ''output-setter''"
    using ids2 by (auto simp: map_eq_Cons_conv)
  have t1: "take 1 (calls ?run2) = [calls ?run2 ! 0]" "take 1 (calls ?orun2) = [calls ?orun2 ! 0]"
    using len by (simp_all add: take_Suc_conv_app_nth)
  have folds: "InterceptorContext.metadata (passedContext (calls ?run ! 3))
      = Some (foldl (++) Map.empty (map inputContribution (take 3 (calls ?run))))"
    by (rule metadata_merged_forward [where s = ?S and i = 3 and m = "''test''" and mo = None
        and re = None and now = 0, THEN conjunct2, THEN conjunct2, THEN conjunct2, THEN conjunct2,
        THEN conjunct2, THEN conjunct2, THEN conjunct1, THEN mp, OF conjI, OF len(1) nwi])
  have ofolds: "InterceptorContext.metadata (passedContext (calls ?orun ! 1))
      = Some (foldl (++) Map.empty (map outputContribution (take 1 (calls ?orun))))"
    by (rule metadata_merged_forward [where s = ?S and i = 1 and e = "''ev''" and mo = None
        and now = 0, THEN conjunct2, THEN conjunct2, THEN conjunct2, THEN conjunct2,
        THEN conjunct2, THEN conjunct2, THEN conjunct2, THEN conjunct2, THEN conjunct2,
        THEN mp, OF conjI, OF len(2) nwo])
  have firsts: "map ?see (take 1 (calls ?run2)) = [(''metadata-setter'', Some (None, None))]"
    "map ?see (take 1 (calls ?orun2)) = [(''output-setter'', Some (None, None))]"
    using metadata_merged_forward [where s = ?S and m = "''test''" and mo = None
        and re = None and now = 0 and ?m2.0 = "''again''" and ?mo2.0 = None
        and ?re2.0 = None and ?now2.0 = 1 and ?e2.0 = "''ev''"]
      len(3,4) first t1
    by simp_all
  have "\<exists>md2. InterceptorContext.metadata (passedContext (calls ?erun ! Suc (Suc 0))) = Some md2
      \<and> (\<forall>x. md2 x = (case inputContribution (calls ?erun ! Suc 0) x of
                          None \<Rightarrow> inputWritten (calls ?erun ! Suc 0) x | Some v \<Rightarrow> Some v))"
    using len(5)
    by (rule metadata_merged_forward [where s = ?E and i = "Suc 0" and m = "''test''" and mo = None
        and re = None and now = 0, THEN conjunct2, THEN conjunct2, THEN conjunct2, THEN conjunct2,
        THEN conjunct1, THEN mp])
  then obtain md2 where e1: "InterceptorContext.metadata (passedContext (calls ?erun ! Suc (Suc 0))) = Some md2"
    and e2: "\<forall>x. md2 x = (case inputContribution (calls ?erun ! Suc 0) x of
                          None \<Rightarrow> inputWritten (calls ?erun ! Suc 0) x | Some v \<Rightarrow> Some v)"
    by (elim exE conjE)
  have gone: "map_option (\<lambda>md. md ''key'')
      (InterceptorContext.metadata (passedContext (calls ?erun ! Suc (Suc 0)))) = Some None"
    using e2 [rule_format, of "''key''"] erased(1,2) by (simp add: e1)
  have "\<exists>md2. InterceptorContext.metadata (passedContext (calls ?frun ! Suc (Suc 0))) = Some md2
      \<and> (\<forall>x. md2 x = (case outputContribution (calls ?frun ! Suc 0) x of
                          None \<Rightarrow> outputWritten (calls ?frun ! Suc 0) x | Some v \<Rightarrow> Some v))"
    using len(6)
    by (rule metadata_merged_forward [where s = ?F and i = "Suc 0" and e = "''ev''" and mo = None
        and now = 0, THEN conjunct2, THEN conjunct2, THEN conjunct2, THEN conjunct2,
        THEN conjunct2, THEN conjunct2, THEN conjunct2, THEN conjunct1, THEN mp])
  then obtain md3 where f1: "InterceptorContext.metadata (passedContext (calls ?frun ! Suc (Suc 0))) = Some md3"
    and f2: "\<forall>x. md3 x = (case outputContribution (calls ?frun ! Suc 0) x of
                          None \<Rightarrow> outputWritten (calls ?frun ! Suc 0) x | Some v \<Rightarrow> Some v)"
    by (elim exE conjE)
  have ogone: "map_option (\<lambda>md. md ''key'')
      (InterceptorContext.metadata (passedContext (calls ?frun ! Suc (Suc 0)))) = Some None"
    using f2 [rule_format, of "''key''"] erased(3,4) by (simp add: f1)
  show ?thesis
    using see(1) folds see(2) ofolds firsts gone ogone by (intro conjI) assumption+
qed

section \<open>The block reason\<close>

lemma inputLoop_result:
  "returned (inputLoop cs d ctx m md s) = Inr res \<Longrightarrow>
   InputPipelineResult.blocked res =
     (calls (inputLoop cs d ctx m md s) \<noteq> [] \<and> inputBlocks (last (calls (inputLoop cs d ctx m md s))))
   \<and> InputPipelineResult.blockReason res =
     (if InputPipelineResult.blocked res then inputReason (last (calls (inputLoop cs d ctx m md s)))
      else None)"
proof (cases "calls (inputLoop cs d ctx m md s) = [] \<or> \<not> inputBlocks (last (calls (inputLoop cs d ctx m md s)))")
  case True
  assume "returned (inputLoop cs d ctx m md s) = Inr res"
  with inputLoop_completes [OF True] True show ?thesis by auto
next
  case False
  let ?ks = "calls (inputLoop cs d ctx m md s)"
  assume r: "returned (inputLoop cs d ctx m md s) = Inr res"
  from False have ne: "?ks \<noteq> []" and b: "inputBlocks (last ?ks)" by simp_all
  then have i: "length ?ks - 1 < length ?ks" and l: "last ?ks = ?ks ! (length ?ks - 1)"
    by (simp_all add: last_conv_nth)
  from inputLoop_blocked [OF i] b l r ne show ?thesis by auto
qed

lemma outputLoop_result:
  "returned (outputLoop cs d ctx m md s) = Inr res \<Longrightarrow>
   OutputPipelineResult.blocked res =
     (calls (outputLoop cs d ctx m md s) \<noteq> [] \<and> outputBlocks (last (calls (outputLoop cs d ctx m md s))))"
proof (cases "calls (outputLoop cs d ctx m md s) = [] \<or> \<not> outputBlocks (last (calls (outputLoop cs d ctx m md s)))")
  case True
  assume "returned (outputLoop cs d ctx m md s) = Inr res"
  with outputLoop_completes [OF True] True show ?thesis by auto
next
  case False
  let ?ks = "calls (outputLoop cs d ctx m md s)"
  assume r: "returned (outputLoop cs d ctx m md s) = Inr res"
  from False have ne: "?ks \<noteq> []" and b: "outputBlocks (last ?ks)" by simp_all
  then have i: "length ?ks - 1 < length ?ks" and l: "last ?ks = ?ks ! (length ?ks - 1)"
    by (simp_all add: last_conv_nth)
  from outputLoop_blocked [OF i] b l r ne show ?thesis by auto
qed

text \<open>
  C10. The result of an input run has \<^verbatim>\<open>blocked\<close> true exactly when the last handler
  it invoked blocked. When \<^verbatim>\<open>blocked\<close> is false there is no block reason, so a block
  reason that is defined implies \<^verbatim>\<open>blocked\<close> true; when \<^verbatim>\<open>blocked\<close> is true the
  block reason is the one of the blocking result (which may give none). The result of an
  output run is made of the event and \<^verbatim>\<open>blocked\<close> and of nothing else: its type has no
  block reason.
\<close>

theorem block_reason_only_when_blocked:
  fixes s :: "('m, 'o, 'x, 'v) ManagerState" and m mo re now e
  defines "run \<equiv> executeInputInterceptors m mo re now s"
    and "orun \<equiv> executeOutputInterceptors e mo now s"
  shows
  "(returned run = Inr res \<longrightarrow>
      InputPipelineResult.blocked res = (calls run \<noteq> [] \<and> inputBlocks (last (calls run)))
      \<and> (\<not> InputPipelineResult.blocked res \<longrightarrow> InputPipelineResult.blockReason res = None)
      \<and> (InputPipelineResult.blockReason res \<noteq> None \<longrightarrow> InputPipelineResult.blocked res)
      \<and> (InputPipelineResult.blocked res \<longrightarrow>
            InputPipelineResult.blockReason res = inputReason (last (calls run))))
   \<and> (returned orun = Inr ores \<longrightarrow>
      OutputPipelineResult.blocked ores = (calls orun \<noteq> [] \<and> outputBlocks (last (calls orun)))
      \<and> ores = \<lparr>OutputPipelineResult.event = OutputPipelineResult.event ores,
                 blocked = OutputPipelineResult.blocked ores\<rparr>)"
proof -
  have a: "InputPipelineResult.blocked res = (calls run \<noteq> [] \<and> inputBlocks (last (calls run)))
     \<and> InputPipelineResult.blockReason res =
       (if InputPipelineResult.blocked res then inputReason (last (calls run)) else None)"
    if "returned run = Inr res"
    using that unfolding run_def executeInput_loop by (rule inputLoop_result)
  have b: "OutputPipelineResult.blocked ores = (calls orun \<noteq> [] \<and> outputBlocks (last (calls orun)))"
    if "returned orun = Inr ores"
    using that unfolding orun_def executeOutput_loop by (rule outputLoop_result)
  have c: "ores = \<lparr>OutputPipelineResult.event = OutputPipelineResult.event ores,
                 blocked = OutputPipelineResult.blocked ores\<rparr>"
    by simp
  show ?thesis
  proof (intro conjI impI)
    assume r: "returned run = Inr res"
    from a [OF r] show "InputPipelineResult.blocked res = (calls run \<noteq> [] \<and> inputBlocks (last (calls run)))"
      by simp
    from a [OF r] show "InputPipelineResult.blockReason res = None" if "\<not> InputPipelineResult.blocked res"
      using that by simp
    from a [OF r] show "InputPipelineResult.blocked res" if "InputPipelineResult.blockReason res \<noteq> None"
      using that by (simp split: if_splits)
    from a [OF r] show "InputPipelineResult.blockReason res = inputReason (last (calls run))"
      if "InputPipelineResult.blocked res"
      using that by simp
  next
    assume r: "returned orun = Inr ores"
    from b [OF r] show "OutputPipelineResult.blocked ores = (calls orun \<noteq> [] \<and> outputBlocks (last (calls orun)))" .
    show "ores = \<lparr>OutputPipelineResult.event = OutputPipelineResult.event ores,
                 blocked = OutputPipelineResult.blocked ores\<rparr>" by (rule c)
  qed
qed

theorem block_reason_only_when_blocked_witness:
  "returned (executeInputInterceptors ''hi'' None None 0
        (register (spy ''C'' (Some 1)) (register (blocker ''B'' (Some 5) ''Input not allowed'')
          (register (prefixer ''A'' (Some 10) ''A:'') testManager))))
     = Inr \<lparr>InputPipelineResult.message = ''A:hi'', blocked = True,
            blockReason = Some ''Input not allowed''\<rparr>
   \<and> returned (executeInputInterceptors ''hi'' None None 0
        (register (prefixer ''A'' (Some 10) ''A:'') testManager))
     = Inr \<lparr>InputPipelineResult.message = ''A:hi'', blocked = False, blockReason = None\<rparr>
   \<and> returned (executeOutputInterceptors ''ev'' None 0
        (register (outputBlocker ''B'' (Some 5)) testManager))
     = Inr \<lparr>OutputPipelineResult.event = ''ev'', blocked = True\<rparr>"
proof -
  let ?S = "register (spy ''C'' (Some 1)) (register (blocker ''B'' (Some 5) ''Input not allowed'')
          (register (prefixer ''A'' (Some 10) ''A:'') testManager))"
  let ?S1 = "register (prefixer ''A'' (Some 10) ''A:'') testManager"
  let ?T = "register (outputBlocker ''B'' (Some 5)) testManager"
  have sel: "getSortedInputInterceptors ?S
      = [prefixer ''A'' (Some 10) ''A:'', blocker ''B'' (Some 5) ''Input not allowed'', spy ''C'' (Some 1)]"
    "getSortedInputInterceptors ?S1 = [prefixer ''A'' (Some 10) ''A:'']"
    "getSortedOutputInterceptors ?T = [outputBlocker ''B'' (Some 5)]"
    by (simp_all add: registry_eval example_sel)
  have ret: "returned (executeInputInterceptors ''hi'' None None 0 ?S)
     = Inr \<lparr>InputPipelineResult.message = ''A:hi'', blocked = True,
            blockReason = Some ''Input not allowed''\<rparr>"
    "returned (executeInputInterceptors ''hi'' None None 0 ?S1)
     = Inr \<lparr>InputPipelineResult.message = ''A:hi'', blocked = False, blockReason = None\<rparr>"
    "returned (executeOutputInterceptors ''ev'' None 0 ?T)
     = Inr \<lparr>OutputPipelineResult.event = ''ev'', blocked = True\<rparr>"
    unfolding executeInput_loop executeOutput_loop sel
    by (simp_all add: example_sel Let_def invoked_simps)
  show ?thesis
    using block_reason_only_when_blocked [where s = ?S and m = "''hi''" and mo = None and re = None
        and now = 0 and e = "''ev''"
        and res = "\<lparr>InputPipelineResult.message = ''A:hi'', blocked = True,
            blockReason = Some ''Input not allowed''\<rparr>"]
      block_reason_only_when_blocked [where s = ?S1 and m = "''hi''" and mo = None and re = None
        and now = 0 and e = "''ev''"
        and res = "\<lparr>InputPipelineResult.message = ''A:hi'', blocked = False, blockReason = None\<rparr>"]
      block_reason_only_when_blocked [where s = ?T and m = "''hi''" and mo = None and re = None
        and now = 0 and e = "''ev''"
        and ores = "\<lparr>OutputPipelineResult.event = ''ev'', blocked = True\<rparr>"]
      ret
    by simp
qed

section \<open>The registry changes while a run is in flight\<close>

lemma interceptors_debug: "interceptors (debugLogger_debug l s) = interceptors s"
  and interceptors_error: "interceptors (debugLogger_error l e s) = interceptors s"
  by (simp_all add: debugLogger_debug_def debugLogger_error_def)

lemma interceptors_unregister:
  "interceptors (snd (unregister i s)) = snd (mapDelete i (interceptors s))"
  by (simp add: unregister_def Let_def interceptors_debug split: prod.splits)

lemma interceptors_clear: "interceptors (clear s) = []"
  by (simp add: clear_def interceptors_debug)

lemma interceptors_applyCall_cong:
  "interceptors s = interceptors t \<Longrightarrow> interceptors (applyCall c s) = interceptors (applyCall c t)"
  by (cases c) (simp_all add: interceptors_register interceptors_unregister interceptors_clear)

lemma interceptors_applyCalls_cong:
  "interceptors s = interceptors t \<Longrightarrow> interceptors (applyCalls cs s) = interceptors (applyCalls cs t)"
  unfolding applyCalls_def
proof (induction cs arbitrary: s t)
  case Nil
  then show ?case by simp
next
  case (Cons c cs)
  have "interceptors (applyCall c s) = interceptors (applyCall c t)"
    by (rule interceptors_applyCall_cong [OF Cons.prems])
  then have "interceptors (foldl (\<lambda>t c. applyCall c t) (applyCall c s) cs) =
      interceptors (foldl (\<lambda>t c. applyCall c t) (applyCall c t) cs)"
    by (rule Cons.IH)
  then show ?case by simp
qed

lemma applyCalls_append: "applyCalls (cs @ ds) s = applyCalls ds (applyCalls cs s)"
  by (simp add: applyCalls_def)

lemma getSortedInput_cong:
  "interceptors s = interceptors t \<Longrightarrow> getSortedInputInterceptors s = getSortedInputInterceptors t"
  by (simp add: getSortedInputInterceptors_def)

lemma getSortedOutput_cong:
  "interceptors s = interceptors t \<Longrightarrow> getSortedOutputInterceptors s = getSortedOutputInterceptors t"
  by (simp add: getSortedOutputInterceptors_def)

lemma interceptors_inputStepState:
  "interceptors (inputStepState k s) = interceptors (applyCalls (inputEffects k) s)"
proof -
  let ?s1 = "debugLogger_debug (''[InterceptorManager] Executing input interceptor: '' @ id' (callee k)) s"
  have "interceptors (inputStepState k s) = interceptors (applyCalls (inputEffects k) ?s1)"
    by (simp add: inputStepState_def Let_def interceptors_debug interceptors_error
        split: sum.splits option.splits)
  also have "\<dots> = interceptors (applyCalls (inputEffects k) s)"
    by (rule interceptors_applyCalls_cong) (rule interceptors_debug)
  finally show ?thesis .
qed

lemma interceptors_inputSteps:
  "interceptors (foldl (\<lambda>t k. inputStepState k t) s ks) =
     interceptors (applyCalls (concat (map inputEffects ks)) s)"
proof (induction ks arbitrary: s)
  case Nil
  show ?case by (simp add: applyCalls_def)
next
  case (Cons k ks)
  have "interceptors (foldl (\<lambda>t k. inputStepState k t) s (k # ks)) =
      interceptors (applyCalls (concat (map inputEffects ks)) (inputStepState k s))"
    using Cons [of "inputStepState k s"] by simp
  also have "\<dots> = interceptors (applyCalls (concat (map inputEffects ks)) (applyCalls (inputEffects k) s))"
    by (rule interceptors_applyCalls_cong) (rule interceptors_inputStepState)
  finally show ?case by (simp add: applyCalls_append)
qed

lemma interceptors_outputStepState:
  "interceptors (outputStepState k s) = interceptors (applyCalls (outputEffects k) s)"
proof -
  let ?s1 = "debugLogger_debug (''[InterceptorManager] Executing output interceptor: '' @ id' (callee k)) s"
  have "interceptors (outputStepState k s) = interceptors (applyCalls (outputEffects k) ?s1)"
    by (simp add: outputStepState_def Let_def interceptors_debug interceptors_error
        split: sum.splits option.splits)
  also have "\<dots> = interceptors (applyCalls (outputEffects k) s)"
    by (rule interceptors_applyCalls_cong) (rule interceptors_debug)
  finally show ?thesis .
qed

lemma interceptors_outputSteps:
  "interceptors (foldl (\<lambda>t k. outputStepState k t) s ks) =
     interceptors (applyCalls (concat (map outputEffects ks)) s)"
proof (induction ks arbitrary: s)
  case Nil
  show ?case by (simp add: applyCalls_def)
next
  case (Cons k ks)
  have "interceptors (foldl (\<lambda>t k. outputStepState k t) s (k # ks)) =
      interceptors (applyCalls (concat (map outputEffects ks)) (outputStepState k s))"
    using Cons [of "outputStepState k s"] by simp
  also have "\<dots> = interceptors (applyCalls (concat (map outputEffects ks)) (applyCalls (outputEffects k) s))"
    by (rule interceptors_applyCalls_cong) (rule interceptors_outputStepState)
  finally show ?case by (simp add: applyCalls_append)
qed

text \<open>
  C8. The handlers a run invokes are, in order, those of an initial segment of the
  selection made from the state in which the run started, whatever calls on
  \<^verbatim>\<open>register\<close>, \<^verbatim>\<open>unregister\<close> and \<^verbatim>\<open>clear\<close> the handlers make while the run is
  in flight; the run stops short of the whole selection only when the last handler it
  invoked blocked. The registry the run leaves is the one it started with after all those
  calls, in the order in which they were made, so the selection of the next run, of either
  direction, is made from the changed registry.
\<close>

theorem run_iterates_its_snapshot:
  fixes s :: "('m, 'o, 'x, 'v) ManagerState" and m mo re now e
  defines "run \<equiv> executeInputInterceptors m mo re now s"
    and "orun \<equiv> executeOutputInterceptors e mo now s"
  shows
  "map callee (calls run) = take (length (calls run)) (getSortedInputInterceptors s)
   \<and> (length (calls run) < length (getSortedInputInterceptors s) \<longrightarrow>
        calls run \<noteq> [] \<and> inputBlocks (last (calls run)))
   \<and> interceptors (after run) =
        interceptors (applyCalls (concat (map inputEffects (calls run))) s)
   \<and> getSortedInputInterceptors (after run) =
        getSortedInputInterceptors (applyCalls (concat (map inputEffects (calls run))) s)
   \<and> getSortedOutputInterceptors (after run) =
        getSortedOutputInterceptors (applyCalls (concat (map inputEffects (calls run))) s)
   \<and> map callee (calls orun) = take (length (calls orun)) (getSortedOutputInterceptors s)
   \<and> (length (calls orun) < length (getSortedOutputInterceptors s) \<longrightarrow>
        calls orun \<noteq> [] \<and> outputBlocks (last (calls orun)))
   \<and> interceptors (after orun) =
        interceptors (applyCalls (concat (map outputEffects (calls orun))) s)
   \<and> getSortedInputInterceptors (after orun) =
        getSortedInputInterceptors (applyCalls (concat (map outputEffects (calls orun))) s)
   \<and> getSortedOutputInterceptors (after orun) =
        getSortedOutputInterceptors (applyCalls (concat (map outputEffects (calls orun))) s)"
proof -
  have a: "map callee (calls run) = take (length (calls run)) (getSortedInputInterceptors s)"
    unfolding run_def by (rule executeInput_callees)
  have b: "calls run \<noteq> [] \<and> inputBlocks (last (calls run))"
    if "length (calls run) < length (getSortedInputInterceptors s)"
    using that unfolding run_def executeInput_loop
    by (rule inputLoop_cut [OF input_handlers_present])
  have c: "interceptors (after run) =
        interceptors (applyCalls (concat (map inputEffects (calls run))) s)"
    unfolding run_def executeInput_loop inputLoop_after by (rule interceptors_inputSteps)
  have a': "map callee (calls orun) = take (length (calls orun)) (getSortedOutputInterceptors s)"
    unfolding orun_def by (rule executeOutput_callees)
  have b': "calls orun \<noteq> [] \<and> outputBlocks (last (calls orun))"
    if "length (calls orun) < length (getSortedOutputInterceptors s)"
    using that unfolding orun_def executeOutput_loop
    by (rule outputLoop_cut [OF output_handlers_present])
  have c': "interceptors (after orun) =
        interceptors (applyCalls (concat (map outputEffects (calls orun))) s)"
    unfolding orun_def executeOutput_loop outputLoop_after by (rule interceptors_outputSteps)
  show ?thesis
    using a b c a' b' c' getSortedInput_cong [OF c] getSortedOutput_cong [OF c]
      getSortedInput_cong [OF c'] getSortedOutput_cong [OF c']
    by blast
qed

theorem run_iterates_its_snapshot_witness:
  "map (\<lambda>k. id' (callee k))
     (calls (executeInputInterceptors ''hi'' None None 0
        (register (spy ''later'' (Some 1))
          (register (rewirer ''rewirer'' (Some 10) (spy ''new'' (Some 5))) testManager))))
     = [''rewirer'', ''later'']
   \<and> map fst (interceptors (after (executeInputInterceptors ''hi'' None None 0
        (register (spy ''later'' (Some 1))
          (register (rewirer ''rewirer'' (Some 10) (spy ''new'' (Some 5))) testManager)))))
     = [''new'']
   \<and> map (\<lambda>k. id' (callee k))
     (calls (executeInputInterceptors ''hi'' None None 1
        (after (executeInputInterceptors ''hi'' None None 0
          (register (spy ''later'' (Some 1))
            (register (rewirer ''rewirer'' (Some 10) (spy ''new'' (Some 5))) testManager))))))
     = [''new'']
   \<and> map (\<lambda>k. id' (callee k))
     (calls (executeOutputInterceptors ''ev'' None 0
        (register (outputSpy ''later'' (Some 1))
          (register (outputRewirer ''rewirer'' (Some 10) ''later'' (outputSpy ''new'' (Some 5)))
             testManager))))
     = [''rewirer'', ''later'']
   \<and> map fst (interceptors (after (executeOutputInterceptors ''ev'' None 0
        (register (outputSpy ''later'' (Some 1))
          (register (outputRewirer ''rewirer'' (Some 10) ''later'' (outputSpy ''new'' (Some 5)))
             testManager)))))
     = [''rewirer'', ''new'']
   \<and> map (\<lambda>k. id' (callee k))
     (calls (executeOutputInterceptors ''ev'' None 1
        (after (executeOutputInterceptors ''ev'' None 0
          (register (outputSpy ''later'' (Some 1))
            (register (outputRewirer ''rewirer'' (Some 10) ''later'' (outputSpy ''new'' (Some 5)))
               testManager))))))
     = [''rewirer'', ''new'']
   \<and> map (\<lambda>k. (id' (callee k), inputBlocks k))
     (calls (executeInputInterceptors ''hi'' None None 0
        (register (spy ''C'' (Some 1)) (register (blocker ''B'' (Some 5) ''x'') testManager))))
     = [(''B'', True)]
   \<and> map (\<lambda>k. (id' (callee k), outputBlocks k))
     (calls (executeOutputInterceptors ''ev'' None 0
        (register (outputSpy ''C'' (Some 1)) (register (outputBlocker ''B'' (Some 5)) testManager))))
     = [(''B'', True)]"
proof -
  let ?S = "register (spy ''later'' (Some 1))
          (register (rewirer ''rewirer'' (Some 10) (spy ''new'' (Some 5))) testManager)"
  let ?T = "register (outputSpy ''later'' (Some 1))
          (register (outputRewirer ''rewirer'' (Some 10) ''later'' (outputSpy ''new'' (Some 5)))
             testManager)"
  let ?Sb = "register (spy ''C'' (Some 1)) (register (blocker ''B'' (Some 5) ''x'') testManager)"
  let ?Tb = "register (outputSpy ''C'' (Some 1)) (register (outputBlocker ''B'' (Some 5)) testManager)"
  let ?run = "executeInputInterceptors ''hi'' None None 0 ?S"
  let ?orun = "executeOutputInterceptors ''ev'' None 0 ?T"
  have sel: "getSortedInputInterceptors ?S
      = [rewirer ''rewirer'' (Some 10) (spy ''new'' (Some 5)), spy ''later'' (Some 1)]"
    "getSortedOutputInterceptors ?T
      = [outputRewirer ''rewirer'' (Some 10) ''later'' (outputSpy ''new'' (Some 5)), outputSpy ''later'' (Some 1)]"
    "getSortedInputInterceptors ?Sb = [blocker ''B'' (Some 5) ''x'', spy ''C'' (Some 1)]"
    "getSortedOutputInterceptors ?Tb = [outputBlocker ''B'' (Some 5), outputSpy ''C'' (Some 1)]"
    by (simp_all add: registry_eval example_sel)
  have ids: "map (\<lambda>k. id' (callee k)) (calls ?run) = [''rewirer'', ''later'']"
    "map (\<lambda>k. id' (callee k)) (calls ?orun) = [''rewirer'', ''later'']"
    "map (\<lambda>k. (id' (callee k), inputBlocks k)) (calls (executeInputInterceptors ''hi'' None None 0 ?Sb))
       = [(''B'', True)]"
    "map (\<lambda>k. (id' (callee k), outputBlocks k)) (calls (executeOutputInterceptors ''ev'' None 0 ?Tb))
       = [(''B'', True)]"
    unfolding executeInput_loop executeOutput_loop sel
    by (simp_all add: example_sel Let_def invoked_simps inputBlocks_def inputSettled_def
        outputBlocks_def outputSettled_def)
  have eff: "concat (map inputEffects (calls ?run)) = [Clear, Register (spy ''new'' (Some 5))]"
    "concat (map outputEffects (calls ?orun)) = [Unregister ''later'', Register (outputSpy ''new'' (Some 5))]"
    unfolding executeInput_loop executeOutput_loop sel
    by (simp_all add: example_sel Let_def invoked_simps inputEffects_def outputEffects_def)
  have reg: "interceptors (applyCalls [Clear, Register (spy ''new'' (Some 5))] ?S)
      = [(''new'', spy ''new'' (Some 5))]"
    "interceptors (applyCalls [Unregister ''later'', Register (outputSpy ''new'' (Some 5))] ?T)
      = [(''rewirer'', outputRewirer ''rewirer'' (Some 10) ''later'' (outputSpy ''new'' (Some 5))),
         (''new'', outputSpy ''new'' (Some 5))]"
    by (simp_all add: applyCalls_def interceptors_register interceptors_clear interceptors_unregister
        mapDelete_def example_sel testManager_def new_InterceptorManager_def)
  note t = run_iterates_its_snapshot [where s = ?S and m = "''hi''" and mo = None and re = None
        and now = 0 and e = "''ev''"]
  note t' = run_iterates_its_snapshot [where s = ?T and m = "''hi''" and mo = None and re = None
        and now = 0 and e = "''ev''"]
  have after: "interceptors (after ?run) = [(''new'', spy ''new'' (Some 5))]"
    "interceptors (after ?orun)
      = [(''rewirer'', outputRewirer ''rewirer'' (Some 10) ''later'' (outputSpy ''new'' (Some 5))),
         (''new'', outputSpy ''new'' (Some 5))]"
    using t t' eff reg by simp_all
  have sel2: "getSortedInputInterceptors (after ?run) = [spy ''new'' (Some 5)]"
    "getSortedOutputInterceptors (after ?orun)
      = [outputRewirer ''rewirer'' (Some 10) ''later'' (outputSpy ''new'' (Some 5)), outputSpy ''new'' (Some 5)]"
    by (simp_all add: getSortedInputInterceptors_def getSortedOutputInterceptors_def after
        mapValues_def compareFn_def nullish_def sortCompare_def fromInt_def example_sel)
  have ids2: "map (\<lambda>k. id' (callee k)) (calls (executeInputInterceptors ''hi'' None None 1 (after ?run)))
      = [''new'']"
    "map (\<lambda>k. id' (callee k)) (calls (executeOutputInterceptors ''ev'' None 1 (after ?orun)))
      = [''rewirer'', ''new'']"
    unfolding executeInput_loop [of _ _ _ 1] executeOutput_loop [of _ _ 1] sel2
    by (simp_all add: example_sel Let_def invoked_simps)
  show ?thesis
    using run_iterates_its_snapshot [where s = ?Sb and m = "''hi''" and mo = None and re = None
        and now = 0 and e = "''ev''"]
      run_iterates_its_snapshot [where s = ?Tb and m = "''hi''" and mo = None and re = None
        and now = 0 and e = "''ev''"]
      ids ids2 after
    by simp
qed

section \<open>The array that getAll returns\<close>

lemma inputLoop_any_state:
  "returned (inputLoop cs d ctx m md s) = returned (inputLoop cs d ctx m md t)
   \<and> calls (inputLoop cs d ctx m md s) = calls (inputLoop cs d ctx m md t)"
proof (induction cs arbitrary: d ctx m md s t)
  case Nil
  show ?case by simp
next
  case (Cons c cs)
  show ?case
  proof (cases "onInput c")
    case None
    show ?thesis unfolding inputLoop_skip [OF None] by (rule Cons.IH)
  next
    case (Some h)
    then have h: "onInput c \<noteq> None" by simp
    show ?thesis
      unfolding inputLoop_step [OF h]
      using Cons.IH by (simp add: Let_def invoked_simps)
  qed
qed

lemma executeInput_any_state:
  assumes "interceptors s = interceptors t" "ManagerState.sessionId s = ManagerState.sessionId t"
  shows "returned (executeInputInterceptors m mo re now s) = returned (executeInputInterceptors m mo re now t)
   \<and> calls (executeInputInterceptors m mo re now s) = calls (executeInputInterceptors m mo re now t)"
  unfolding executeInput_loop getSortedInput_cong [OF assms(1)] assms(2)
  by (rule inputLoop_any_state)

lemma outputLoop_any_state:
  "returned (outputLoop cs d ctx m md s) = returned (outputLoop cs d ctx m md t)
   \<and> calls (outputLoop cs d ctx m md s) = calls (outputLoop cs d ctx m md t)"
proof (induction cs arbitrary: d ctx m md s t)
  case Nil
  show ?case by simp
next
  case (Cons c cs)
  show ?case
  proof (cases "onOutput c")
    case None
    show ?thesis unfolding outputLoop_skip [OF None] by (rule Cons.IH)
  next
    case (Some h)
    then have h: "onOutput c \<noteq> None" by simp
    show ?thesis
      unfolding outputLoop_step [OF h]
      using Cons.IH by (simp add: Let_def invoked_simps)
  qed
qed

lemma executeOutput_any_state:
  assumes "interceptors s = interceptors t" "ManagerState.sessionId s = ManagerState.sessionId t"
  shows "returned (executeOutputInterceptors m mo now s) = returned (executeOutputInterceptors m mo now t)
   \<and> calls (executeOutputInterceptors m mo now s) = calls (executeOutputInterceptors m mo now t)"
  unfolding executeOutput_loop getSortedOutput_cong [OF assms(1)] assms(2)
  by (rule outputLoop_any_state)

text \<open>
  C9. \<open>getAll\<close> returns the reference \<open>r\<close> of an array that holds the registrations
  of the registry, all of them, in the order in which the registry iterates them. When the
  caller then puts any list \<open>xs\<close> in the place of that array (whatever it pushed, removed
  or reordered), the array is changed and the registry is not: \<open>get\<close> answers as
  before, a later \<open>getAll\<close> returns another array, with the registrations again, and
  both pipelines invoke the same handlers with the same arguments and return the same
  result as they would have.
\<close>

theorem getAll_returns_a_snapshot:
  fixes s :: "('m, 'o, 'x, 'v) ManagerState" and xs i m mo re now e
  defines "r \<equiv> fst (getAll s)" and "s1 \<equiv> snd (getAll s)"
  defines "s2 \<equiv> writeArray r xs s1"
  shows
  "readArray r s1 = Some (map snd (interceptors s))
   \<and> (get i s = Some c \<longrightarrow> c \<in> set (map snd (interceptors s)))
   \<and> interceptors s1 = interceptors s
   \<and> readArray r s2 = Some xs
   \<and> interceptors s2 = interceptors s
   \<and> get i s2 = get i s
   \<and> fst (getAll s2) \<noteq> r
   \<and> readArray (fst (getAll s2)) (snd (getAll s2)) = Some (map snd (interceptors s))
   \<and> returned (executeInputInterceptors m mo re now s2) = returned (executeInputInterceptors m mo re now s)
   \<and> calls (executeInputInterceptors m mo re now s2) = calls (executeInputInterceptors m mo re now s)
   \<and> returned (executeOutputInterceptors e mo now s2) = returned (executeOutputInterceptors e mo now s)
   \<and> calls (executeOutputInterceptors e mo now s2) = calls (executeOutputInterceptors e mo now s)"
proof -
  have r: "r = length (arrays s)"
    and s1: "s1 = s\<lparr>arrays := arrays s @ [map snd (interceptors s)]\<rparr>"
    by (simp_all add: r_def s1_def getAll_def mapValues_def)
  have s2: "s2 = s\<lparr>arrays := arrays s @ [xs]\<rparr>"
    by (simp add: s2_def writeArray_def r s1)
  have a: "readArray r s1 = Some (map snd (interceptors s))"
    by (simp add: readArray_def r s1)
  have b: "c \<in> set (map snd (interceptors s))" if "get i s = Some c"
    using that map_of_SomeD [of "interceptors s" i c]
    by (force simp: get_def mapGet_def)
  have same: "interceptors s2 = interceptors s" "ManagerState.sessionId s2 = ManagerState.sessionId s"
    by (simp_all add: s2)
  have d: "readArray r s2 = Some xs" "get i s2 = get i s" "fst (getAll s2) \<noteq> r"
    "readArray (fst (getAll s2)) (snd (getAll s2)) = Some (map snd (interceptors s))"
    by (simp_all add: s2 r readArray_def get_def getAll_def mapValues_def nth_append)
  show ?thesis
    using a b d same s1 executeInput_any_state [OF same, of m mo re now]
      executeOutput_any_state [OF same, of e mo now]
    by simp
qed

theorem getAll_returns_a_snapshot_witness:
  "readArray (fst (getAll (register (outputSpy ''interceptor-2'' None)
       (register (spy ''interceptor-1'' None) testManager))))
     (snd (getAll (register (outputSpy ''interceptor-2'' None)
       (register (spy ''interceptor-1'' None) testManager))))
     = Some [spy ''interceptor-1'' None, outputSpy ''interceptor-2'' None]
   \<and> get ''interceptor-1'' (register (outputSpy ''interceptor-2'' None)
       (register (spy ''interceptor-1'' None) testManager)) = Some (spy ''interceptor-1'' None)
   \<and> spy ''interceptor-1'' None \<in> set [spy ''interceptor-1'' None, outputSpy ''interceptor-2'' None]
   \<and> readArray 0 (writeArray 0 []
        (snd (getAll (register (outputSpy ''interceptor-2'' None)
          (register (spy ''interceptor-1'' None) testManager))))) = Some []
   \<and> get ''interceptor-1'' (writeArray 0 []
        (snd (getAll (register (outputSpy ''interceptor-2'' None)
          (register (spy ''interceptor-1'' None) testManager))))) = Some (spy ''interceptor-1'' None)
   \<and> readArray 1 (snd (getAll (writeArray 0 []
        (snd (getAll (register (outputSpy ''interceptor-2'' None)
          (register (spy ''interceptor-1'' None) testManager)))))))
     = Some [spy ''interceptor-1'' None, outputSpy ''interceptor-2'' None]"
proof -
  let ?S = "register (outputSpy ''interceptor-2'' None) (register (spy ''interceptor-1'' None) testManager)"
  have i: "interceptors ?S = [(''interceptor-1'', spy ''interceptor-1'' None),
      (''interceptor-2'', outputSpy ''interceptor-2'' None)]"
    and ar: "arrays ?S = []"
    by (simp_all add: interceptors_register example_sel testManager_def new_InterceptorManager_def
        register_def debugLogger_debug_def Let_def)
  have g: "fst (getAll ?S) = 0" "fst (getAll (writeArray 0 [] (snd (getAll ?S)))) = 1"
    by (simp_all add: getAll_def ar writeArray_def)
  have g1: "get ''interceptor-1'' ?S = Some (spy ''interceptor-1'' None)"
    by (simp add: get_def mapGet_def i)
  show ?thesis
    using getAll_returns_a_snapshot [where s = ?S and xs = "[]" and i = "''interceptor-1''"
        and c = "spy ''interceptor-1'' None"] i g g1
    by simp
qed

end
